theory Spec2Isabelle
  imports Complex_Main "HOL-Library.AList"
begin

section \<open>Python values, exceptions and the operations main.py uses on them\<close>

text \<open>
  A decoded JSON body, a cell of the data frame and a field of a row are Python values.
  Floats are carried as reals: the program never computes with them, it only hands them
  to the reprojection and to string formatting, which are parameters below. The missing
  marker of pandas (float NaN) is a value of its own. A dict is an association list in
  insertion order with unique keys.
\<close>

datatype pyval =
    PNone
  | PBool bool
  | PInt int
  | PFloat real
  | PNaN
  | PStr string
  | PList "pyval list"
  | PDict "(string \<times> pyval) list"

text \<open>
  The exceptions that the operations of the language raise here, and one constructor for
  whatever an external library (requests, the JSON decoder, pyproj) raises. All of them
  are subclasses of Exception.
\<close>

datatype exn = AttributeError | TypeError | KeyError | IndexError | LibraryError string

text \<open>The two diagnostics that main.py prints, with the address and the exception.\<close>

datatype diagnostic =
    ErrorFetching string exn
  | ErrorProcessing string exn

definition and_then :: "exn + 'a \<Rightarrow> ('a \<Rightarrow> exn + 'b) \<Rightarrow> exn + 'b" where
  "and_then m f = (case m of Inl e \<Rightarrow> Inl e | Inr v \<Rightarrow> f v)"

text \<open>Truth value of an object, as \<open>if data\<close> and \<open>not data\<close> test it.\<close>

fun truthy :: "pyval \<Rightarrow> bool" where
  "truthy PNone = False"
| "truthy (PBool b) = b"
| "truthy (PInt i) = (i \<noteq> 0)"
| "truthy (PFloat r) = (r \<noteq> 0)"
| "truthy PNaN = True"
| "truthy (PStr s) = (s \<noteq> [])"
| "truthy (PList xs) = (xs \<noteq> [])"
| "truthy (PDict d) = (d \<noteq> [])"

fun is_substring :: "string \<Rightarrow> string \<Rightarrow> bool" where
  "is_substring p [] = (p = [])"
| "is_substring p (c # cs) = (take (length p) (c # cs) = p \<or> is_substring p cs)"

text \<open>\<open>k in x\<close> for a string \<open>k\<close>: key of a dict, element of a list, substring of a string.\<close>

fun py_contains :: "string \<Rightarrow> pyval \<Rightarrow> exn + bool" where
  "py_contains k (PDict d) = Inr (map_of d k \<noteq> None)"
| "py_contains k (PList xs) = Inr (PStr k \<in> set xs)"
| "py_contains k (PStr s) = Inr (is_substring k s)"
| "py_contains k v = Inl TypeError"

text \<open>\<open>x[k]\<close> for a string \<open>k\<close>.\<close>

fun py_getitem :: "pyval \<Rightarrow> string \<Rightarrow> exn + pyval" where
  "py_getitem (PDict d) k = (case map_of d k of None \<Rightarrow> Inl KeyError | Some v \<Rightarrow> Inr v)"
| "py_getitem v k = Inl TypeError"

text \<open>\<open>x[n]\<close> for the literal indices 0 and 1 of main.py. The keys of a decoded JSON
  object are strings, so an integer key is never found.\<close>

fun py_index :: "pyval \<Rightarrow> nat \<Rightarrow> exn + pyval" where
  "py_index (PList xs) n = (if n < length xs then Inr (xs ! n) else Inl IndexError)"
| "py_index (PStr s) n = (if n < length s then Inr (PStr [s ! n]) else Inl IndexError)"
| "py_index (PDict d) n = Inl KeyError"
| "py_index v n = Inl TypeError"

text \<open>\<open>x.get(k, default)\<close>: only a dict has the method.\<close>

fun py_get :: "pyval \<Rightarrow> string \<Rightarrow> pyval \<Rightarrow> exn + pyval" where
  "py_get (PDict d) k dflt = Inr (case map_of d k of None \<Rightarrow> dflt | Some v \<Rightarrow> v)"
| "py_get v k dflt = Inl AttributeError"

text \<open>The items a \<open>for\<close> loop visits.\<close>

fun py_iter :: "pyval \<Rightarrow> exn + pyval list" where
  "py_iter (PList xs) = Inr xs"
| "py_iter (PDict d) = Inr (map (\<lambda>kv. PStr (fst kv)) d)"
| "py_iter (PStr s) = Inr (map (\<lambda>c. PStr [c]) s)"
| "py_iter v = Inl TypeError"

text \<open>\<open>str.lower\<close> on the ASCII letters; other bytes are left as they are.\<close>

definition lower_char :: "char \<Rightarrow> char" where
  "lower_char c =
     (case map_of (zip ''ABCDEFGHIJKLMNOPQRSTUVWXYZ'' ''abcdefghijklmnopqrstuvwxyz'') c of
        None \<Rightarrow> c
      | Some l \<Rightarrow> l)"

definition lower :: "string \<Rightarrow> string" where
  "lower s = map lower_char s"

text \<open>\<open>s.replace(old, new)\<close>: every non-overlapping occurrence, from the left. The
  source only calls it with a non-empty \<open>old\<close>.\<close>

function str_replace :: "string \<Rightarrow> string \<Rightarrow> string \<Rightarrow> string" where
  "str_replace old new [] = []"
| "str_replace old new (c # cs) =
     (if old \<noteq> [] \<and> take (length old) (c # cs) = old
      then new @ str_replace old new (drop (length old) (c # cs))
      else c # str_replace old new cs)"
  by pat_completeness auto
termination
  by (relation "measure (\<lambda>(old, new, s). length s)") (auto simp: Suc_le_eq)

section \<open>Coordinate reprojection\<close>

text \<open>
  \<open>transformer.transform\<close> belongs to pyproj and the rendering of a number inside an
  f-string to the language: both are parameters. \<open>tr x y\<close> is the call
  \<open>transformer.transform(x, y)\<close>, which may raise; \<open>fmt v\<close> is the text that
  \<open>{v}\<close> produces.
\<close>

type_synonym transformer = "pyval \<Rightarrow> pyval \<Rightarrow> exn + (pyval \<times> pyval)"

definition convert_lat_lon_to_UTM ::
  "transformer \<Rightarrow> (pyval \<Rightarrow> string) \<Rightarrow> pyval \<Rightarrow> pyval \<Rightarrow> exn + string" where
  "convert_lat_lon_to_UTM tr fmt lat lon =
     and_then (tr lon lat)
       (\<lambda>utm. Inr (''POINT('' @ fmt (fst utm) @ '' '' @ fmt (snd utm) @ '')''))"

text \<open>A row handed out by \<open>itertuples\<close> and the dict that \<open>_asdict\<close> makes of it have
  the same fields in the same order.\<close>

type_synonym row = "(string \<times> pyval) list"

definition duplicate_row_with_new_UTM ::
  "transformer \<Rightarrow> (pyval \<Rightarrow> string) \<Rightarrow> row \<Rightarrow> pyval \<Rightarrow> exn + row" where
  "duplicate_row_with_new_UTM tr fmt row coordinates =
     and_then (py_index coordinates 1) (\<lambda>c1.
     and_then (py_index coordinates 0) (\<lambda>c0.
     and_then (convert_lat_lon_to_UTM tr fmt c1 c0) (\<lambda>utm.
       Inr (AList.update ''the_geom'' (PStr utm) row))))"

section \<open>Response normalizer\<close>

text \<open>One pass of the loop body of \<open>normalize_google_response\<close>: the feature to append,
  if the result has a geometry with a location.\<close>

definition result_feature :: "pyval \<Rightarrow> exn + pyval option" where
  "result_feature result =
     and_then (py_contains ''geometry'' result) (\<lambda>has_geometry.
       if \<not> has_geometry then Inr None
       else
         and_then (py_getitem result ''geometry'') (\<lambda>g.
         and_then (py_contains ''location'' g) (\<lambda>has_location.
           if \<not> has_location then Inr None
           else
             and_then (py_getitem g ''location'') (\<lambda>location.
             and_then (py_getitem location ''lng'') (\<lambda>lng.
             and_then (py_getitem location ''lat'') (\<lambda>lat.
               Inr (Some (PDict [(''geometry'',
                      PDict [(''coordinates'', PList [lng, lat])])]))))))))"

fun normalize_results :: "pyval list \<Rightarrow> pyval list \<Rightarrow> exn + pyval list" where
  "normalize_results features [] = Inr features"
| "normalize_results features (result # results) =
     and_then (result_feature result) (\<lambda>f.
       normalize_results (case f of None \<Rightarrow> features | Some feature \<Rightarrow> features @ [feature])
         results)"

definition normalize_google_response :: "pyval \<Rightarrow> exn + pyval" where
  "normalize_google_response data =
     (if \<not> truthy data then Inr PNone
      else
        and_then (py_contains ''results'' data) (\<lambda>has_results.
          if \<not> has_results then Inr PNone
          else
            and_then (py_getitem data ''results'') (\<lambda>results.
              if \<not> truthy results then Inr PNone
              else
                and_then (py_iter results) (\<lambda>items.
                and_then (normalize_results [] items) (\<lambda>features.
                  Inr (PDict [(''features'', PList features)]))))))"

section \<open>Geocode client\<close>

text \<open>
  \<open>requests.get(url)\<close> either raises or gives a response: its status code and what
  \<open>response.json()\<close> would do, a decoded body or an exception.
\<close>

type_synonym response = "int \<times> (exn + pyval)"
type_synonym http_get = "string \<Rightarrow> exn + response"

definition geocode_url :: "string \<Rightarrow> string \<Rightarrow> string" where
  "geocode_url endereco api_type =
     (if lower api_type = ''google''
      then ''http://localhost:8080/external/geocode?address='' @ endereco
      else ''http://localhost:8080/external/geocode-geoapify?address='' @ endereco)"

text \<open>The body of the \<open>try\<close> block of \<open>fetch_geocode\<close>.\<close>

definition fetch_geocode_try :: "http_get \<Rightarrow> string \<Rightarrow> string \<Rightarrow> exn + pyval" where
  "fetch_geocode_try get endereco api_type =
     and_then (get (geocode_url endereco api_type)) (\<lambda>response.
       if fst response = 200
       then
         and_then (snd response) (\<lambda>data.
           if lower api_type = ''google'' then normalize_google_response data
           else Inr data)
       else Inr PNone)"

text \<open>\<open>fetch_geocode\<close>: the value returned and the lines printed.\<close>

definition fetch_geocode :: "http_get \<Rightarrow> string \<Rightarrow> string \<Rightarrow> pyval \<times> diagnostic list" where
  "fetch_geocode get endereco api_type =
     (case fetch_geocode_try get endereco api_type of
        Inl e \<Rightarrow> (PNone, [ErrorFetching endereco e])
      | Inr v \<Rightarrow> (v, []))"

section \<open>The data frame\<close>

text \<open>
  A data frame is its column labels and its rows of cells, one cell per column; the row
  labels are the positions \<open>0, 1, ...\<close> that \<open>read_csv\<close> gives. A cell holds the value
  that was put there; the dtype of a column is read off its cells where it matters
  (\<open>numeric_dtype\<close> below).
\<close>

record dataframe =
  columns :: "string list"
  rows :: "pyval list list"

text \<open>
  \<open>itertuples\<close> hands out each row as a named tuple that pandas builds with
  \<open>collections.namedtuple(..., rename=True)\<close> from the names \<open>Index\<close> and the column
  labels. With \<open>rename=True\<close> a name that is not an identifier, is a keyword, starts
  with an underscore or was seen before is replaced by the positional name \<open>_N\<close>, where
  \<open>N\<close> is the position of the field. \<open>str.isidentifier\<close> is written out for names in
  ASCII; what it answers for a name with other characters is the parameter \<open>uid\<close>.
\<close>

definition is_ascii :: "string \<Rightarrow> bool" where
  "is_ascii s = list_all (\<lambda>c. (of_char c :: nat) < 128) s"

definition identifier_start :: "char \<Rightarrow> bool" where
  "identifier_start c = (c \<in> set ''abcdefghijklmnopqrstuvwxyzABCDEFGHIJKLMNOPQRSTUVWXYZ_'')"

definition identifier_continue :: "char \<Rightarrow> bool" where
  "identifier_continue c = (identifier_start c \<or> c \<in> set ''0123456789'')"

definition isidentifier :: "(string \<Rightarrow> bool) \<Rightarrow> string \<Rightarrow> bool" where
  "isidentifier uid s =
     (if is_ascii s
      then (case s of [] \<Rightarrow> False | c # cs \<Rightarrow> identifier_start c \<and> list_all identifier_continue cs)
      else uid s)"

definition iskeyword :: "string \<Rightarrow> bool" where
  "iskeyword s =
     (s \<in> set [''False'', ''None'', ''True'', ''and'', ''as'', ''assert'', ''async'', ''await'',
        ''break'', ''class'', ''continue'', ''def'', ''del'', ''elif'', ''else'', ''except'',
        ''finally'', ''for'', ''from'', ''global'', ''if'', ''import'', ''in'', ''is'', ''lambda'',
        ''nonlocal'', ''not'', ''or'', ''pass'', ''raise'', ''return'', ''try'', ''while'', ''with'',
        ''yield''])"

text \<open>The decimal digits of a number, as \<open>f'_{index}'\<close> renders it.\<close>

function decimal :: "nat \<Rightarrow> string" where
  "decimal n =
     (if n < 10 then [''0123456789'' ! n]
      else decimal (n div 10) @ [''0123456789'' ! (n mod 10)])"
  by pat_completeness auto
termination
  by (relation "measure (\<lambda>n. n)") auto

declare decimal.simps [simp del]

text \<open>The loop of \<open>namedtuple\<close> that renames the fields: \<open>index\<close> is the position of the
  next name, \<open>seen\<close> the names met so far.\<close>

fun rename_fields :: "(string \<Rightarrow> bool) \<Rightarrow> nat \<Rightarrow> string list \<Rightarrow> string list \<Rightarrow> string list" where
  "rename_fields uid index seen [] = []"
| "rename_fields uid index seen (name # names) =
     (if \<not> isidentifier uid name \<or> iskeyword name \<or> take 1 name = ''_'' \<or> name \<in> set seen
      then ''_'' @ decimal index
      else name) # rename_fields uid (Suc index) (name # seen) names"

definition field_names :: "(string \<Rightarrow> bool) \<Rightarrow> dataframe \<Rightarrow> string list" where
  "field_names uid df = rename_fields uid 0 [] (''Index'' # columns df)"

definition itertuples :: "(string \<Rightarrow> bool) \<Rightarrow> dataframe \<Rightarrow> row list" where
  "itertuples uid df =
     map (\<lambda>(i, cells). zip (field_names uid df) (PInt (int i) # cells))
       (enumerate 0 (rows df))"

text \<open>\<open>row.name\<close> on a named tuple.\<close>

definition getattr :: "row \<Rightarrow> string \<Rightarrow> exn + pyval" where
  "getattr row name = (case map_of row name of None \<Rightarrow> Inl AttributeError | Some v \<Rightarrow> Inr v)"

text \<open>\<open>pd.isna\<close> on a scalar cell.\<close>

fun isna :: "pyval \<Rightarrow> bool" where
  "isna PNaN = True"
| "isna PNone = True"
| "isna v = False"

text \<open>\<open>x.replace('-', '').replace('P/', '') + ' PARANA'\<close>: only a string has the method.\<close>

fun address_query :: "pyval \<Rightarrow> exn + string" where
  "address_query (PStr s) =
     Inr (str_replace ''P/'' [] (str_replace ''-'' [] s) @ '' PARANA'')"
| "address_query v = Inl AttributeError"

type_synonym task = "nat \<times> row \<times> string"

text \<open>The loop that fills \<open>rows_to_process\<close>. It is outside every \<open>try\<close>: an exception
  ends the program.\<close>

fun rows_to_process_loop :: "(nat \<times> row) list \<Rightarrow> task list \<Rightarrow> exn + task list" where
  "rows_to_process_loop [] todo = Inr todo"
| "rows_to_process_loop ((row_idx, row) # rest) todo =
     and_then (getattr row ''the_geom'') (\<lambda>g.
       if isna g
       then
         and_then (getattr row ''endereco'') (\<lambda>a.
         and_then (address_query a) (\<lambda>endereco.
           rows_to_process_loop rest (todo @ [(row_idx, row, endereco)])))
       else rows_to_process_loop rest todo)"

definition rows_to_process :: "(string \<Rightarrow> bool) \<Rightarrow> dataframe \<Rightarrow> exn + task list" where
  "rows_to_process uid df = rows_to_process_loop (enumerate 0 (itertuples uid df)) []"

section \<open>Merge reconciler\<close>

text \<open>The state that the completion loop changes: the dict \<open>updates\<close> and the list
  \<open>new_rows\<close>.\<close>

type_synonym merge_state = "(nat \<times> string) list \<times> row list"

text \<open>\<open>feature.get('geometry').get('coordinates')\<close>\<close>

definition feature_coordinates :: "pyval \<Rightarrow> exn + pyval" where
  "feature_coordinates feature =
     and_then (py_get feature ''geometry'' PNone) (\<lambda>g. py_get g ''coordinates'' PNone)"

text \<open>The \<open>for i, feature in enumerate(...)\<close> loop, from position \<open>i\<close> on. It stops at
  the first exception and keeps what it has written so far.\<close>

fun process_features ::
  "transformer \<Rightarrow> (pyval \<Rightarrow> string) \<Rightarrow> nat \<Rightarrow> row \<Rightarrow> nat \<Rightarrow> pyval list \<Rightarrow> merge_state
     \<Rightarrow> merge_state \<times> exn option" where
  "process_features tr fmt row_idx row i [] st = (st, None)"
| "process_features tr fmt row_idx row i (feature # rest) st =
     (case feature_coordinates feature of
        Inl e \<Rightarrow> (st, Some e)
      | Inr coordinates \<Rightarrow>
          if i = 0
          then
            (case and_then (py_index coordinates 1) (\<lambda>c1.
                  and_then (py_index coordinates 0) (\<lambda>c0.
                    convert_lat_lon_to_UTM tr fmt c1 c0)) of
               Inl e \<Rightarrow> (st, Some e)
             | Inr utm \<Rightarrow>
                 process_features tr fmt row_idx row (Suc i) rest
                   (AList.update row_idx utm (fst st), snd st))
          else
            (case duplicate_row_with_new_UTM tr fmt row coordinates of
               Inl e \<Rightarrow> (st, Some e)
             | Inr new_row \<Rightarrow>
                 process_features tr fmt row_idx row (Suc i) rest
                   (fst st, snd st @ [new_row])))"

text \<open>The body of the \<open>try\<close> block of the completion loop, for one completed lookup.\<close>

definition reconcile_try ::
  "transformer \<Rightarrow> (pyval \<Rightarrow> string) \<Rightarrow> nat \<Rightarrow> row \<Rightarrow> pyval \<Rightarrow> merge_state
     \<Rightarrow> merge_state \<times> exn option" where
  "reconcile_try tr fmt row_idx row data st =
     (if truthy data
      then
        (case and_then (py_get data ''features'' (PList [])) py_iter of
           Inl e \<Rightarrow> (st, Some e)
         | Inr features \<Rightarrow> process_features tr fmt row_idx row 0 features st)
      else (st, None))"

text \<open>One pass of the completion loop: the \<open>try\<close> block and its handler, which prints
  and goes on.\<close>

definition reconcile ::
  "transformer \<Rightarrow> (pyval \<Rightarrow> string) \<Rightarrow> merge_state \<times> diagnostic list
     \<Rightarrow> task \<times> pyval \<times> diagnostic list \<Rightarrow> merge_state \<times> diagnostic list" where
  "reconcile tr fmt s c =
     (let row_idx = fst (fst c); row = fst (snd (fst c)); endereco = snd (snd (fst c));
          data = fst (snd c);
          r = reconcile_try tr fmt row_idx row data (fst s)
      in (fst r,
          snd s @ snd (snd c) @
            (case snd r of None \<Rightarrow> [] | Some e \<Rightarrow> [ErrorProcessing endereco e])))"

section \<open>The pipeline\<close>

text \<open>
  The lookups run in a pool of threads and complete in some order: \<open>order\<close> lists the
  positions of the tasks in the order of completion, a permutation of \<open>0 ..< n\<close>.
  \<open>http i\<close> is the behaviour of \<open>requests.get\<close> for the lookup of row \<open>i\<close>. The lines
  printed by one lookup are put right before the line of its reconciliation; how the
  lines of different threads interleave is not modelled.
\<close>

definition completion_order :: "nat \<Rightarrow> nat list \<Rightarrow> bool" where
  "completion_order n order = (sort order = [0..<n])"

definition dispatch ::
  "(nat \<Rightarrow> http_get) \<Rightarrow> string \<Rightarrow> task list \<Rightarrow> nat list
     \<Rightarrow> (task \<times> pyval \<times> diagnostic list) list" where
  "dispatch http api_type tasks order =
     map (\<lambda>k. (tasks ! k,
                fetch_geocode (http (fst (tasks ! k))) (snd (snd (tasks ! k))) api_type))
       order"

definition reconcile_all ::
  "transformer \<Rightarrow> (pyval \<Rightarrow> string) \<Rightarrow> (task \<times> pyval \<times> diagnostic list) list
     \<Rightarrow> merge_state \<times> diagnostic list" where
  "reconcile_all tr fmt completed = foldl (reconcile tr fmt) (([], []), []) completed"

text \<open>
  \<open>df.at[row_idx, col] = utm\<close> for a string \<open>utm\<close>. Both labels exist whenever the
  program gets here: the keys of \<open>updates\<close> are positions of rows on which
  \<open>row.the_geom\<close> succeeded. The dtype of the column decides what happens. A column
  that \<open>read_csv\<close> found entirely empty or numeric has dtype float64 or int64, one of
  truth values only has dtype bool; every other column holds objects (or strings) and
  takes the text. Into a float64, int64 or bool column pandas before 3.0 writes the text
  after converting the column to objects, pandas from 3.0 on raises TypeError: \<open>strict\<close>
  says which of the two the installed pandas does.
\<close>

definition column_position :: "string list \<Rightarrow> string \<Rightarrow> nat" where
  "column_position cols col = length (takeWhile (\<lambda>c. c \<noteq> col) cols)"

definition column_cells :: "dataframe \<Rightarrow> string \<Rightarrow> pyval list" where
  "column_cells df col =
     map (\<lambda>r. if column_position (columns df) col < length r
              then r ! column_position (columns df) col else PNaN)
       (rows df)"

fun is_number :: "pyval \<Rightarrow> bool" where
  "is_number (PInt i) = True"
| "is_number (PFloat r) = True"
| "is_number PNaN = True"
| "is_number v = False"

fun is_bool :: "pyval \<Rightarrow> bool" where
  "is_bool (PBool b) = True"
| "is_bool v = False"

definition numeric_dtype :: "pyval list \<Rightarrow> bool" where
  "numeric_dtype cells = (cells \<noteq> [] \<and> (list_all is_number cells \<or> list_all is_bool cells))"

definition set_cell :: "dataframe \<Rightarrow> nat \<Rightarrow> string \<Rightarrow> pyval \<Rightarrow> dataframe" where
  "set_cell df row_idx col v =
     df\<lparr>rows := (rows df)[row_idx := (rows df ! row_idx)[column_position (columns df) col := v]]\<rparr>"

definition df_at_set :: "bool \<Rightarrow> dataframe \<Rightarrow> nat \<Rightarrow> string \<Rightarrow> string \<Rightarrow> exn + dataframe" where
  "df_at_set strict df row_idx col utm =
     (if strict \<and> numeric_dtype (column_cells df col) then Inl TypeError
      else Inr (set_cell df row_idx col (PStr utm)))"

text \<open>The loop \<open>for row_idx, utm in updates.items()\<close>. It is outside every \<open>try\<close>: an
  exception ends the program.\<close>

fun apply_updates :: "bool \<Rightarrow> (nat \<times> string) list \<Rightarrow> dataframe \<Rightarrow> exn + dataframe" where
  "apply_updates strict [] df = Inr df"
| "apply_updates strict (u # updates) df =
     and_then (df_at_set strict df (fst u) ''the_geom'' (snd u)) (apply_updates strict updates)"

text \<open>\<open>pd.DataFrame(list of dicts)\<close>: the columns are the keys in the order in which they
  are first seen, a key that a dict lacks is NaN.\<close>

definition first_seen :: "string list \<Rightarrow> string list" where
  "first_seen ks = rev (remdups (rev ks))"

definition cell_of :: "row \<Rightarrow> string \<Rightarrow> pyval" where
  "cell_of d c = (case map_of d c of None \<Rightarrow> PNaN | Some v \<Rightarrow> v)"

definition pd_DataFrame :: "row list \<Rightarrow> dataframe" where
  "pd_DataFrame dicts =
     (let cols = first_seen (concat (map (map fst) dicts))
      in \<lparr>columns = cols, rows = map (\<lambda>d. map (cell_of d) cols) dicts\<rparr>)"

text \<open>\<open>pd.concat([df, other], ignore_index=True)\<close>: the union of the columns, those of
  \<open>df\<close> first, and the rows of both, NaN where a frame has no such column.\<close>

definition pd_concat :: "dataframe \<Rightarrow> dataframe \<Rightarrow> dataframe" where
  "pd_concat df other =
     (let cols = columns df @ filter (\<lambda>c. c \<notin> set (columns df)) (columns other)
      in \<lparr>columns = cols,
          rows = map (\<lambda>r. map (cell_of (zip (columns df) r)) cols) (rows df) @
                 map (\<lambda>r. map (cell_of (zip (columns other) r)) cols) (rows other)\<rparr>)"

definition finish :: "bool \<Rightarrow> dataframe \<Rightarrow> merge_state \<Rightarrow> exn + dataframe" where
  "finish strict df st =
     and_then (apply_updates strict (fst st) df) (\<lambda>df1.
       Inr (if snd st \<noteq> [] then pd_concat df1 (pd_DataFrame (snd st)) else df1))"

definition main ::
  "bool \<Rightarrow> (string \<Rightarrow> bool) \<Rightarrow> transformer \<Rightarrow> (pyval \<Rightarrow> string) \<Rightarrow> (nat \<Rightarrow> http_get) \<Rightarrow> string
     \<Rightarrow> nat list \<Rightarrow> dataframe \<Rightarrow> exn + (dataframe \<times> diagnostic list)" where
  "main strict uid tr fmt http api_type order df =
     and_then (rows_to_process uid df) (\<lambda>tasks.
       let s = reconcile_all tr fmt (dispatch http api_type tasks order)
       in and_then (finish strict df (fst s)) (\<lambda>out. Inr (out, snd s)))"

section \<open>Shapes of provider responses\<close>

text \<open>
  The entry of a provider-B response that carries the pair \<open>p = (longitude, latitude)\<close>:
  a dict with a \<open>geometry\<close> whose \<open>location\<close> has the fields \<open>lng\<close> and \<open>lat\<close>.
  Other keys may be present at every level.
\<close>

definition wellformed_result :: "pyval \<Rightarrow> pyval \<times> pyval \<Rightarrow> bool" where
  "wellformed_result r p =
     (\<exists>rd gd ld. r = PDict rd \<and> map_of rd ''geometry'' = Some (PDict gd) \<and>
        map_of gd ''location'' = Some (PDict ld) \<and>
        map_of ld ''lng'' = Some (fst p) \<and> map_of ld ''lat'' = Some (snd p))"

text \<open>The canonical feature for the pair \<open>p = (longitude, latitude)\<close>.\<close>

definition feature_of :: "pyval \<times> pyval \<Rightarrow> pyval" where
  "feature_of p = PDict [(''geometry'', PDict [(''coordinates'', PList [fst p, snd p])])]"

text \<open>
  The feature of a provider-A response (or of the normalizer's output) that carries the
  pair \<open>p = (longitude, latitude)\<close>: a dict with a \<open>geometry\<close> whose \<open>coordinates\<close>
  start with the two numbers. Other keys and further coordinates may be present.
\<close>

definition wellformed_feature :: "pyval \<Rightarrow> pyval \<times> pyval \<Rightarrow> bool" where
  "wellformed_feature f p =
     (\<exists>fd gd cs. f = PDict fd \<and> map_of fd ''geometry'' = Some (PDict gd) \<and>
        map_of gd ''coordinates'' = Some (PList (fst p # snd p # cs)))"

text \<open>An empty result, as the completion loop sees it: a false value (None after a
  failure, an empty dict) or a body whose \<open>features\<close> are absent or empty.\<close>

definition no_features :: "pyval \<Rightarrow> bool" where
  "no_features data =
     (\<not> truthy data \<or> and_then (py_get data ''features'' (PList [])) py_iter = Inr [])"

text \<open>
  Entries of a provider-B response that the normalizer skips: a dict without
  \<open>geometry\<close>, or whose \<open>geometry\<close> is a dict without \<open>location\<close>.
\<close>

fun lacks_location :: "pyval \<Rightarrow> bool" where
  "lacks_location (PDict rd) =
     (case map_of rd ''geometry'' of
        None \<Rightarrow> True
      | Some (PDict gd) \<Rightarrow> map_of gd ''location'' = None
      | Some g \<Rightarrow> False)"
| "lacks_location r = False"

text \<open>The entries of \<open>results\<close> have the shapes \<open>os\<close>: \<open>Some p\<close> for an entry that
  carries the pair \<open>p\<close>, \<open>None\<close> for an entry that is skipped.\<close>

definition result_shape :: "pyval \<Rightarrow> (pyval \<times> pyval) option \<Rightarrow> bool" where
  "result_shape r shape =
     (case shape of None \<Rightarrow> lacks_location r | Some p \<Rightarrow> wellformed_result r p)"

text \<open>An entry whose \<open>location\<close> is a dict without \<open>lng\<close> or without \<open>lat\<close>.\<close>

fun lacks_coordinate :: "pyval \<Rightarrow> bool" where
  "lacks_coordinate (PDict rd) =
     (case map_of rd ''geometry'' of
        Some (PDict gd) \<Rightarrow>
          (case map_of gd ''location'' of
             Some (PDict ld) \<Rightarrow> map_of ld ''lng'' = None \<or> map_of ld ''lat'' = None
           | _ \<Rightarrow> False)
      | _ \<Rightarrow> False)"
| "lacks_coordinate r = False"

text \<open>A feature of a provider-A response that is a dict without \<open>geometry\<close>.\<close>

fun lacks_feature_geometry :: "pyval \<Rightarrow> bool" where
  "lacks_feature_geometry (PDict fd) = (map_of fd ''geometry'' = None)"
| "lacks_feature_geometry f = False"

text \<open>The reprojection of the pair \<open>p = (longitude, latitude)\<close> succeeds and is
  serialized as \<open>g\<close>.\<close>

definition projects_to ::
  "transformer \<Rightarrow> (pyval \<Rightarrow> string) \<Rightarrow> pyval \<times> pyval \<Rightarrow> string \<Rightarrow> bool" where
  "projects_to tr fmt p g = (convert_lat_lon_to_UTM tr fmt (snd p) (fst p) = Inr g)"

text \<open>The dict that \<open>duplicate_row_with_new_UTM\<close> returns when the geometry is \<open>g\<close>.\<close>

definition clone_of :: "row \<Rightarrow> string \<Rightarrow> row" where
  "clone_of row g = AList.update ''the_geom'' (PStr g) row"

section \<open>Records and frames\<close>

definition lacks_geometry :: "row \<Rightarrow> bool" where
  "lacks_geometry row = (case getattr row ''the_geom'' of Inl e \<Rightarrow> False | Inr g \<Rightarrow> isna g)"

text \<open>\<open>q\<close> is the query string that the source computes from the address of \<open>row\<close>.\<close>

definition query_for :: "row \<Rightarrow> string \<Rightarrow> bool" where
  "query_for row q =
     (\<exists>a. getattr row ''endereco'' = Inr (PStr a) \<and>
        q = str_replace ''P/'' [] (str_replace ''-'' [] a) @ '' PARANA'')"

text \<open>A frame as \<open>read_csv\<close> builds it: distinct column labels, one cell per column.\<close>

definition wf_frame :: "dataframe \<Rightarrow> bool" where
  "wf_frame df =
     (distinct (columns df) \<and> (\<forall>r\<in>set (rows df). length r = length (columns df)))"

definition cell :: "dataframe \<Rightarrow> nat \<Rightarrow> string \<Rightarrow> pyval" where
  "cell df i c = cell_of (zip (columns df) (rows df ! i)) c"

text \<open>A label that \<open>namedtuple\<close> keeps as a field name unless it has seen it before.\<close>

definition plain_label :: "(string \<Rightarrow> bool) \<Rightarrow> string \<Rightarrow> bool" where
  "plain_label uid c = (isidentifier uid c \<and> \<not> iskeyword c \<and> take 1 c \<noteq> ''_'')"

text \<open>The frame after the assignments of \<open>updates\<close>, and the output frame, when no
  assignment raises.\<close>

definition write_all :: "(nat \<times> string) list \<Rightarrow> dataframe \<Rightarrow> dataframe" where
  "write_all updates df =
     fold (\<lambda>u d. set_cell d (fst u) ''the_geom'' (PStr (snd u))) updates df"

definition assemble :: "dataframe \<Rightarrow> merge_state \<Rightarrow> dataframe" where
  "assemble df st =
     (let df1 = write_all (fst st) df
      in if snd st \<noteq> [] then pd_concat df1 (pd_DataFrame (snd st)) else df1)"

section \<open>The query string in the words of the specification\<close>

text \<open>
  The specification describes the query string as the address with punctuation stripped
  and the region suffix appended. This definition follows those words, to be compared
  with \<open>address_query\<close>, which follows the source: the punctuation characters are those
  of ASCII (\<open>string.punctuation\<close>).
\<close>

definition is_punctuation :: "char \<Rightarrow> bool" where
  "is_punctuation c =
     (let n = (of_char c :: nat)
      in (33 \<le> n \<and> n \<le> 47) \<or> (58 \<le> n \<and> n \<le> 64) \<or> (91 \<le> n \<and> n \<le> 96) \<or>
         (123 \<le> n \<and> n \<le> 126))"

definition spec_address_query :: "string \<Rightarrow> string" where
  "spec_address_query a = filter (\<lambda>c. \<not> is_punctuation c) a @ '' PARANA''"

section \<open>Example inputs\<close>

text \<open>
  Stand-ins for the reprojection and for the rendering of numbers, to run the model on
  examples: the identity on pairs, and one decimal digit. A frame with one resolved and
  one unresolved record, and a provider-A body with two features.
\<close>

definition example_transform :: transformer where
  "example_transform lon lat = Inr (lon, lat)"

definition example_fmt :: "pyval \<Rightarrow> string" where
  "example_fmt v =
     (case v of
        PInt i \<Rightarrow> (if 0 \<le> i \<and> i < 10 then [''0123456789'' ! nat i] else ''?'')
      | _ \<Rightarrow> ''?'')"

definition example_frame :: dataframe where
  "example_frame =
     \<lparr>columns = [''endereco'', ''the_geom''],
      rows = [[PStr ''RUA B 20'', PStr ''POINT(7 8)''], [PStr ''RUA A, 10 - PARANA'', PNaN]]\<rparr>"

definition example_body :: pyval where
  "example_body =
     PDict [(''features'', PList [feature_of (PInt 1, PInt 2), feature_of (PInt 3, PInt 4)])]"

section \<open>Basic facts\<close>

lemma and_then_Inl [simp]: "and_then (Inl e) f = Inl e"
  by (simp add: and_then_def)

lemma and_then_Inr [simp]: "and_then (Inr v) f = f v"
  by (simp add: and_then_def)

lemma lower_char_g: "lower_char c = CHR ''g'' \<longleftrightarrow> c = CHR ''g'' \<or> c = CHR ''G''"
  by (simp add: lower_char_def)

lemma lower_char_o: "lower_char c = CHR ''o'' \<longleftrightarrow> c = CHR ''o'' \<or> c = CHR ''O''"
  by (simp add: lower_char_def)

lemma lower_char_l: "lower_char c = CHR ''l'' \<longleftrightarrow> c = CHR ''l'' \<or> c = CHR ''L''"
  by (simp add: lower_char_def)

lemma lower_char_e: "lower_char c = CHR ''e'' \<longleftrightarrow> c = CHR ''e'' \<or> c = CHR ''E''"
  by (simp add: lower_char_def)

text \<open>The tags that \<open>api_type.lower() == 'google'\<close> accepts are the 64 spellings of
  \<open>google\<close> in upper and lower case.\<close>

lemma lower_google_iff:
  "lower s = ''google'' \<longleftrightarrow>
     (\<exists>c1 c2 c3 c4 c5 c6. s = [c1, c2, c3, c4, c5, c6] \<and>
        (c1 = CHR ''g'' \<or> c1 = CHR ''G'') \<and> (c2 = CHR ''o'' \<or> c2 = CHR ''O'') \<and>
        (c3 = CHR ''o'' \<or> c3 = CHR ''O'') \<and> (c4 = CHR ''g'' \<or> c4 = CHR ''G'') \<and>
        (c5 = CHR ''l'' \<or> c5 = CHR ''L'') \<and> (c6 = CHR ''e'' \<or> c6 = CHR ''E''))"
  (is "?L \<longleftrightarrow> ?R")
proof
  assume ?L
  then have "map lower_char s = [CHR ''g'', CHR ''o'', CHR ''o'', CHR ''g'', CHR ''l'', CHR ''e'']"
    by (simp only: lower_def)
  then obtain c1 c2 c3 c4 c5 c6 where s: "s = [c1, c2, c3, c4, c5, c6]"
    and l: "lower_char c1 = CHR ''g''" "lower_char c2 = CHR ''o''" "lower_char c3 = CHR ''o''"
       "lower_char c4 = CHR ''g''" "lower_char c5 = CHR ''l''" "lower_char c6 = CHR ''e''"
    unfolding map_eq_Cons_conv by blast
  from l show ?R
    unfolding s lower_char_g lower_char_o lower_char_l lower_char_e by blast
next
  assume ?R
  then obtain c1 c2 c3 c4 c5 c6 where s: "s = [c1, c2, c3, c4, c5, c6]"
    and l: "lower_char c1 = CHR ''g''" "lower_char c2 = CHR ''o''" "lower_char c3 = CHR ''o''"
       "lower_char c4 = CHR ''g''" "lower_char c5 = CHR ''l''" "lower_char c6 = CHR ''e''"
    unfolding lower_char_g lower_char_o lower_char_l lower_char_e by blast
  show ?L unfolding lower_def s using l by (simp only: list.map)
qed

section \<open>The completion loop, one lookup\<close>

lemma wellformed_feature_coordinates:
  assumes "wellformed_feature f p"
  shows "\<exists>c. feature_coordinates f = Inr c \<and> py_index c 0 = Inr (fst p) \<and> py_index c 1 = Inr (snd p)"
  using assms by (auto simp: wellformed_feature_def feature_coordinates_def)

lemma duplicate_row_wellformed:
  assumes "feature_coordinates f = Inr c" "py_index c 0 = Inr (fst p)" "py_index c 1 = Inr (snd p)"
    "projects_to tr fmt p g"
  shows "duplicate_row_with_new_UTM tr fmt row c = Inr (clone_of row g)"
  using assms by (simp add: duplicate_row_with_new_UTM_def projects_to_def clone_of_def)

lemma process_features_rest:
  assumes "list_all2 wellformed_feature fs ps" "list_all2 (projects_to tr fmt) ps gs" "0 < i"
  shows "process_features tr fmt row_idx row i fs (upd, new) = ((upd, new @ map (clone_of row) gs), None)"
  using assms
proof (induction fs arbitrary: ps gs i new)
  case Nil
  then show ?case by simp
next
  case (Cons f fs)
  from Cons.prems(1) obtain p ps' where ps: "ps = p # ps'" "wellformed_feature f p" "list_all2 wellformed_feature fs ps'"
    by (auto simp: list_all2_Cons1)
  from Cons.prems(2) ps obtain g gs' where gs: "gs = g # gs'" "projects_to tr fmt p g" "list_all2 (projects_to tr fmt) ps' gs'"
    by (auto simp: list_all2_Cons1)
  from wellformed_feature_coordinates[OF ps(2)] obtain c where c: "feature_coordinates f = Inr c"
     "py_index c 0 = Inr (fst p)" "py_index c 1 = Inr (snd p)" by blast
  have d: "duplicate_row_with_new_UTM tr fmt row c = Inr (clone_of row g)"
    by (rule duplicate_row_wellformed[OF c gs(2)])
  have "process_features tr fmt row_idx row (Suc i) fs (upd, new @ [clone_of row g])
     = ((upd, (new @ [clone_of row g]) @ map (clone_of row) gs'), None)"
    by (rule Cons.IH[OF ps(3) gs(3)]) simp
  with Cons.prems(3) c d show ?case by (simp add: gs(1))
qed

lemma reconcile_try_wellformed:
  assumes "map_of d ''features'' = Some (PList fs)"
    and "list_all2 wellformed_feature fs (p # ps)"
    and "list_all2 (projects_to tr fmt) (p # ps) (g # gs)"
  shows "reconcile_try tr fmt row_idx row (PDict d) (upd, new)
     = ((AList.update row_idx g upd, new @ map (clone_of row) gs), None)"
proof -
  from assms(2) obtain f fs' where fs: "fs = f # fs'" "wellformed_feature f p" "list_all2 wellformed_feature fs' ps"
    by (auto simp: list_all2_Cons2)
  from assms(3) have g: "projects_to tr fmt p g" "list_all2 (projects_to tr fmt) ps gs" by auto
  from wellformed_feature_coordinates[OF fs(2)] obtain c where c: "feature_coordinates f = Inr c"
     "py_index c 0 = Inr (fst p)" "py_index c 1 = Inr (snd p)" by blast
  from assms(1) have "d \<noteq> []" by auto
  moreover have "process_features tr fmt row_idx row (Suc 0) fs' (AList.update row_idx g upd, new)
      = ((AList.update row_idx g upd, new @ map (clone_of row) gs), None)"
    by (rule process_features_rest[OF fs(3) g(2)]) simp
  ultimately show ?thesis using assms(1) c g(1)
    by (simp add: reconcile_try_def fs(1) projects_to_def)
qed

lemma reconcile_try_no_features:
  "no_features data \<Longrightarrow> reconcile_try tr fmt row_idx row data st = (st, None)"
  by (auto simp: no_features_def reconcile_try_def)

lemma duplicate_row_clone:
  "duplicate_row_with_new_UTM tr fmt row c = Inr r \<Longrightarrow> \<exists>g. r = clone_of row g"
  by (auto simp: duplicate_row_with_new_UTM_def clone_of_def and_then_def split: sum.splits)

lemma process_features_effect:
  assumes "process_features tr fmt row_idx row i fs (upd, new) = ((upd', new'), e)"
  shows "(upd' = upd \<or> (\<exists>g. upd' = AList.update row_idx g upd)) \<and>
         (\<exists>gs. new' = new @ map (clone_of row) gs)"
  using assms
proof (induction fs arbitrary: i upd new)
  case Nil
  then show ?case by (auto intro: exI[of _ "[]"])
next
  case (Cons f fs)
  show ?case
  proof (cases "feature_coordinates f")
    case (Inl x)
    with Cons.prems show ?thesis by (auto intro: exI[of _ "[]"])
  next
    case (Inr c)
    show ?thesis
    proof (cases "i = 0")
      case True
      show ?thesis
      proof (cases "and_then (py_index c 1) (\<lambda>c1. and_then (py_index c 0) (\<lambda>c0. convert_lat_lon_to_UTM tr fmt c1 c0))")
        case (Inl x)
        with Cons.prems Inr True show ?thesis by (auto intro: exI[of _ "[]"])
      next
        case (Inr g)
        with Cons.prems \<open>feature_coordinates f = Inr c\<close> True
        have "process_features tr fmt row_idx row (Suc i) fs (AList.update row_idx g upd, new) = ((upd', new'), e)"
          by simp
        from Cons.IH[OF this] show ?thesis by auto
      qed
    next
      case False
      show ?thesis
      proof (cases "duplicate_row_with_new_UTM tr fmt row c")
        case (Inl x)
        with Cons.prems Inr False show ?thesis by (auto intro: exI[of _ "[]"])
      next
        case (Inr r)
        then obtain g where r: "r = clone_of row g" using duplicate_row_clone by blast
        from Cons.prems \<open>feature_coordinates f = Inr c\<close> False Inr
        have "process_features tr fmt row_idx row (Suc i) fs (upd, new @ [r]) = ((upd', new'), e)"
          by simp
        from Cons.IH[OF this] obtain gs where "upd' = upd \<or> (\<exists>g. upd' = AList.update row_idx g upd)"
          "new' = (new @ [r]) @ map (clone_of row) gs" by blast
        then show ?thesis unfolding r by (auto intro: exI[of _ "g # gs"])
      qed
    qed
  qed
qed

lemma reconcile_try_effect:
  assumes "reconcile_try tr fmt row_idx row data (upd, new) = ((upd', new'), e)"
  shows "(upd' = upd \<or> (\<exists>g. upd' = AList.update row_idx g upd)) \<and>
         (\<exists>gs. new' = new @ map (clone_of row) gs)"
proof (cases "truthy data")
  case False
  with assms show ?thesis by (auto simp: reconcile_try_def intro: exI[of _ "[]"])
next
  case True
  show ?thesis
  proof (cases "and_then (py_get data ''features'' (PList [])) py_iter")
    case (Inl x)
    with assms True show ?thesis by (auto simp: reconcile_try_def intro: exI[of _ "[]"])
  next
    case (Inr fs)
    with assms True have "process_features tr fmt row_idx row 0 fs (upd, new) = ((upd', new'), e)"
      by (simp add: reconcile_try_def)
    from process_features_effect[OF this] show ?thesis .
  qed
qed

section \<open>The tasks\<close>

lemma address_query_Inr: "address_query v = Inr q \<Longrightarrow> \<exists>a. v = PStr a \<and> q = str_replace ''P/'' [] (str_replace ''-'' [] a) @ '' PARANA''"
  by (cases v) auto

lemma rows_to_process_loop_Inr:
  assumes "rows_to_process_loop xs todo = Inr tasks"
  shows "\<exists>new. tasks = todo @ new \<and>
           map (\<lambda>t. (fst t, fst (snd t))) new = filter (\<lambda>x. lacks_geometry (snd x)) xs \<and>
           (\<forall>t\<in>set new. query_for (fst (snd t)) (snd (snd t)))"
  using assms
proof (induction xs arbitrary: todo)
  case Nil
  then show ?case by simp
next
  case (Cons x xs)
  obtain i row where x: "x = (i, row)" by (cases x)
  from Cons.prems obtain g where g: "getattr row ''the_geom'' = Inr g"
    unfolding x by (cases "getattr row ''the_geom''") auto
  show ?case
  proof (cases "isna g")
    case False
    with Cons.prems g have "rows_to_process_loop xs todo = Inr tasks" by (simp add: x)
    from Cons.IH[OF this] show ?thesis using False g by (simp add: x lacks_geometry_def)
  next
    case True
    from Cons.prems g True obtain a where a: "getattr row ''endereco'' = Inr a"
      unfolding x by (cases "getattr row ''endereco''") auto
    from Cons.prems g True a obtain q where q: "address_query a = Inr q"
      unfolding x by (cases "address_query a") auto
    from Cons.prems g True a q have "rows_to_process_loop xs (todo @ [(i, row, q)]) = Inr tasks"
      by (simp add: x)
    from Cons.IH[OF this] obtain new where new: "tasks = (todo @ [(i, row, q)]) @ new"
      "map (\<lambda>t. (fst t, fst (snd t))) new = filter (\<lambda>x. lacks_geometry (snd x)) xs"
      "\<forall>t\<in>set new. query_for (fst (snd t)) (snd (snd t))" by blast
    from address_query_Inr[OF q] a have "query_for row q" by (auto simp: query_for_def)
    with new g True show ?thesis
      by (intro exI[of _ "(i, row, q) # new"]) (simp add: x lacks_geometry_def)
  qed
qed

lemma rows_to_process_loop_total:
  assumes "\<forall>x\<in>set xs. (\<exists>g. getattr (snd x) ''the_geom'' = Inr g) \<and>
             (lacks_geometry (snd x) \<longrightarrow> (\<exists>a. getattr (snd x) ''endereco'' = Inr (PStr a)))"
  shows "\<exists>tasks. rows_to_process_loop xs todo = Inr tasks"
  using assms
proof (induction xs arbitrary: todo)
  case Nil
  then show ?case by simp
next
  case (Cons x xs)
  obtain i row where x: "x = (i, row)" by (cases x)
  from Cons.prems obtain g where g: "getattr row ''the_geom'' = Inr g" by (auto simp: x)
  have rest: "\<exists>tasks. rows_to_process_loop xs todo' = Inr tasks" for todo'
    using Cons.IH Cons.prems by simp
  show ?case
  proof (cases "isna g")
    case False
    with g rest show ?thesis by (simp add: x)
  next
    case True
    with g have "lacks_geometry row" by (simp add: lacks_geometry_def)
    with Cons.prems obtain a where "getattr row ''endereco'' = Inr (PStr a)" by (auto simp: x)
    with g True rest show ?thesis by (simp add: x)
  qed
qed

lemma length_itertuples [simp]: "length (itertuples uid df) = length (rows df)"
  by (simp add: itertuples_def)

lemma length_rename_fields [simp]: "length (rename_fields uid k seen names) = length names"
  by (induction names arbitrary: k seen) simp_all

lemma decimal_small: "n < 10 \<Longrightarrow> decimal n = [''0123456789'' ! n]"
  by (simp add: decimal.simps)

lemma plain_label_the_geom: "plain_label uid ''the_geom''"
  by (simp add: plain_label_def isidentifier_def is_ascii_def identifier_start_def
        identifier_continue_def iskeyword_def)

lemma plain_label_endereco: "plain_label uid ''endereco''"
  by (simp add: plain_label_def isidentifier_def is_ascii_def identifier_start_def
        identifier_continue_def iskeyword_def)

lemma plain_label_Index: "plain_label uid ''Index''"
  by (simp add: plain_label_def isidentifier_def is_ascii_def identifier_start_def
        identifier_continue_def iskeyword_def)

text \<open>A kept label is found in a named tuple where it is found in the frame.\<close>

lemma map_of_rename_fields:
  assumes "plain_label uid c" "c \<notin> set seen"
  shows "map_of (zip (rename_fields uid k seen names) vals) c = map_of (zip names vals) c"
  using assms(2)
proof (induction names arbitrary: k seen vals)
  case Nil
  then show ?case by simp
next
  case (Cons n names)
  show ?case
  proof (cases vals)
    case Nil
    then show ?thesis by simp
  next
    case (Cons v vs)
    show ?thesis
    proof (cases "n = c")
      case True
      with assms(1) Cons.prems show ?thesis
        by (simp add: Cons plain_label_def)
    next
      case False
      from assms(1) have "''_'' @ decimal k \<noteq> c" by (auto simp: plain_label_def)
      moreover from False Cons.prems have "c \<notin> set (n # seen)" by simp
      ultimately show ?thesis using False Cons.IH[of "n # seen" "Suc k" vs]
        by (simp add: Cons)
    qed
  qed
qed

text \<open>Labels that are all kept and all different are the field names.\<close>

lemma rename_fields_plain:
  assumes "\<forall>n\<in>set names. plain_label uid n" "distinct names" "set names \<inter> set seen = {}"
  shows "rename_fields uid k seen names = names"
  using assms
proof (induction names arbitrary: k seen)
  case Nil
  then show ?case by simp
next
  case (Cons n names)
  from Cons.prems have "set names \<inter> set (n # seen) = {}" by auto
  with Cons.prems have "rename_fields uid (Suc k) (n # seen) names = names"
    by (intro Cons.IH) simp_all
  with Cons.prems show ?case by (simp add: plain_label_def)
qed

lemma field_names_Index:
  "field_names uid df = ''Index'' # rename_fields uid (Suc 0) [''Index''] (columns df)"
  using plain_label_Index[of uid] by (simp add: field_names_def plain_label_def)

lemma field_names_plain:
  assumes "\<forall>c\<in>set (columns df). plain_label uid c" "distinct (columns df)"
    "''Index'' \<notin> set (columns df)"
  shows "field_names uid df = ''Index'' # columns df"
  unfolding field_names_Index using assms by (simp add: rename_fields_plain)










lemma nth_itertuples:
  "i < length (rows df) \<Longrightarrow>
     itertuples uid df ! i = zip (field_names uid df) (PInt (int i) # rows df ! i)"
  by (simp add: itertuples_def nth_enumerate_eq)

lemma filter_enumerate:
  "map fst (filter (\<lambda>x. P (snd x)) (enumerate 0 xs)) = filter (\<lambda>i. P (xs ! i)) [0..<length xs]"
proof -
  have "filter (\<lambda>x. P (snd x)) (enumerate 0 xs) = map (\<lambda>i. (i, xs ! i)) (filter (\<lambda>i. P (xs ! i)) [0..<length xs])"
  proof -
    have "enumerate 0 xs = map (\<lambda>i. (i, xs ! i)) [0..<length xs]"
      by (rule nth_equalityI) (simp_all add: nth_enumerate_eq)
    then show ?thesis by (simp add: filter_map comp_def)
  qed
  then show ?thesis by (simp add: comp_def)
qed

lemma rows_to_process_Inr:
  assumes "rows_to_process uid df = Inr tasks"
  shows "map fst tasks = filter (\<lambda>i. lacks_geometry (itertuples uid df ! i)) [0..<length (rows df)]"
    and "\<forall>t\<in>set tasks. fst t < length (rows df) \<and> fst (snd t) = itertuples uid df ! fst t \<and> query_for (fst (snd t)) (snd (snd t))"
proof -
  from rows_to_process_loop_Inr[OF assms[unfolded rows_to_process_def]]
  have m: "map (\<lambda>t. (fst t, fst (snd t))) tasks = filter (\<lambda>x. lacks_geometry (snd x)) (enumerate 0 (itertuples uid df))"
    and q: "\<forall>t\<in>set tasks. query_for (fst (snd t)) (snd (snd t))" by auto
  have "map fst tasks = map fst (map (\<lambda>t. (fst t, fst (snd t))) tasks)" by (simp add: comp_def)
  also have "\<dots> = filter (\<lambda>i. lacks_geometry (itertuples uid df ! i)) [0..<length (itertuples uid df)]"
    unfolding m by (rule filter_enumerate)
  finally show "map fst tasks = filter (\<lambda>i. lacks_geometry (itertuples uid df ! i)) [0..<length (rows df)]" by simp
  show "\<forall>t\<in>set tasks. fst t < length (rows df) \<and> fst (snd t) = itertuples uid df ! fst t \<and> query_for (fst (snd t)) (snd (snd t))"
  proof
    fix t assume t: "t \<in> set tasks"
    then have "(fst t, fst (snd t)) \<in> set (map (\<lambda>t. (fst t, fst (snd t))) tasks)" by force
    then have "(fst t, fst (snd t)) \<in> set (enumerate 0 (itertuples uid df))" unfolding m by simp
    then have "fst t < length (rows df) \<and> fst (snd t) = itertuples uid df ! fst t"
      by (auto simp: in_set_enumerate_eq)
    with q t show "fst t < length (rows df) \<and> fst (snd t) = itertuples uid df ! fst t \<and> query_for (fst (snd t)) (snd (snd t))" by blast
  qed
qed

lemma rows_to_process_total:
  assumes "\<forall>r\<in>set (itertuples uid df). (\<exists>g. getattr r ''the_geom'' = Inr g) \<and>
             (lacks_geometry r \<longrightarrow> (\<exists>a. getattr r ''endereco'' = Inr (PStr a)))"
  shows "\<exists>tasks. rows_to_process uid df = Inr tasks"
  unfolding rows_to_process_def
  by (rule rows_to_process_loop_total) (use assms in \<open>auto simp: in_set_enumerate_eq\<close>)

section \<open>The completion loop, all lookups\<close>

lemma fst_reconcile:
  "fst (reconcile tr fmt s c) =
     fst (reconcile_try tr fmt (fst (fst c)) (fst (snd (fst c))) (fst (snd c)) (fst s))"
  by (simp add: reconcile_def Let_def)

lemma reconcile_step_effect:
  "\<exists>gs. (fst (fst (reconcile tr fmt s c)) = fst (fst s) \<or>
         (\<exists>g. fst (fst (reconcile tr fmt s c)) = AList.update (fst (fst c)) g (fst (fst s)))) \<and>
        snd (fst (reconcile tr fmt s c)) = snd (fst s) @ map (clone_of (fst (snd (fst c)))) gs \<and>
        (no_features (fst (snd c)) \<longrightarrow> gs = [] \<and> fst (fst (reconcile tr fmt s c)) = fst (fst s))"
proof (cases "no_features (fst (snd c))")
  case True
  then show ?thesis
    by (intro exI[of _ "[]"]) (simp add: fst_reconcile reconcile_try_no_features)
next
  case False
  obtain upd new where s: "fst s = (upd, new)" by (cases "fst s")
  obtain upd' new' e where r: "reconcile_try tr fmt (fst (fst c)) (fst (snd (fst c))) (fst (snd c)) (upd, new) = ((upd', new'), e)"
    by (metis surj_pair)
  from reconcile_try_effect[OF r] False show ?thesis
    by (auto simp: fst_reconcile s r)
qed

lemma fold_updates_other:
  assumes "\<forall>c\<in>set cs. fst (fst c) = j \<longrightarrow> no_features (fst (snd c))"
  shows "map_of (fst (fst (foldl (reconcile tr fmt) s cs))) j = map_of (fst (fst s)) j"
  using assms
proof (induction cs rule: rev_induct)
  case Nil
  then show ?case by simp
next
  case (snoc c cs)
  let ?s1 = "foldl (reconcile tr fmt) s cs"
  from snoc have IH: "map_of (fst (fst ?s1)) j = map_of (fst (fst s)) j" by simp
  from reconcile_step_effect[of tr fmt ?s1 c] obtain gs where
    e: "fst (fst (reconcile tr fmt ?s1 c)) = fst (fst ?s1) \<or>
         (\<exists>g. fst (fst (reconcile tr fmt ?s1 c)) = AList.update (fst (fst c)) g (fst (fst ?s1)))"
    and n: "no_features (fst (snd c)) \<longrightarrow> fst (fst (reconcile tr fmt ?s1 c)) = fst (fst ?s1)"
    by blast
  have "map_of (fst (fst (reconcile tr fmt ?s1 c))) j = map_of (fst (fst ?s1)) j"
  proof (cases "fst (fst c) = j")
    case True
    with snoc.prems n show ?thesis by simp
  next
    case False
    with e show ?thesis by (auto simp: update_conv')
  qed
  with IH show ?case by simp
qed

lemma fold_updates_distinct:
  assumes "distinct (map fst (fst (fst s)))"
  shows "distinct (map fst (fst (fst (foldl (reconcile tr fmt) s cs))))"
proof (induction cs rule: rev_induct)
  case Nil
  then show ?case using assms by simp
next
  case (snoc c cs)
  let ?s1 = "foldl (reconcile tr fmt) s cs"
  from reconcile_step_effect[of tr fmt ?s1 c] snoc show ?case
    by (auto simp: distinct_update)
qed

lemma fold_updates_keys:
  "fst ` set (fst (fst (foldl (reconcile tr fmt) s cs))) \<subseteq>
     fst ` set (fst (fst s)) \<union> (\<lambda>c. fst (fst c)) ` set cs"
proof (induction cs rule: rev_induct)
  case Nil
  then show ?case by simp
next
  case (snoc c cs)
  let ?s1 = "foldl (reconcile tr fmt) s cs"
  from reconcile_step_effect[of tr fmt ?s1 c] obtain gs where
    e: "fst (fst (reconcile tr fmt ?s1 c)) = fst (fst ?s1) \<or>
         (\<exists>g. fst (fst (reconcile tr fmt ?s1 c)) = AList.update (fst (fst c)) g (fst (fst ?s1)))"
    by blast
  then have "fst ` set (fst (fst (reconcile tr fmt ?s1 c))) \<subseteq> insert (fst (fst c)) (fst ` set (fst (fst ?s1)))"
  proof
    assume "fst (fst (reconcile tr fmt ?s1 c)) = fst (fst ?s1)"
    then show ?thesis by auto
  next
    assume "\<exists>g. fst (fst (reconcile tr fmt ?s1 c)) = AList.update (fst (fst c)) g (fst (fst ?s1))"
    then obtain g where "fst (fst (reconcile tr fmt ?s1 c)) = AList.update (fst (fst c)) g (fst (fst ?s1))" ..
    then show ?thesis by (simp only: dom_update) simp
  qed
  with snoc have "fst ` set (fst (fst (reconcile tr fmt ?s1 c))) \<subseteq>
      insert (fst (fst c)) (fst ` set (fst (fst s)) \<union> (\<lambda>c. fst (fst c)) ` set cs)"
    by blast
  then show ?case by simp
qed

lemma fold_new_rows:
  "\<exists>ys. snd (fst (foldl (reconcile tr fmt) s cs)) = snd (fst s) @ ys \<and>
     (\<forall>y\<in>set ys. \<exists>c\<in>set cs. \<not> no_features (fst (snd c)) \<and> (\<exists>g. y = clone_of (fst (snd (fst c))) g))"
proof (induction cs rule: rev_induct)
  case Nil
  then show ?case by simp
next
  case (snoc c cs)
  let ?s1 = "foldl (reconcile tr fmt) s cs"
  from snoc obtain ys where ys: "snd (fst ?s1) = snd (fst s) @ ys"
    "\<forall>y\<in>set ys. \<exists>c\<in>set cs. \<not> no_features (fst (snd c)) \<and> (\<exists>g. y = clone_of (fst (snd (fst c))) g)"
    by blast
  from reconcile_step_effect[of tr fmt ?s1 c] obtain gs where
    n: "snd (fst (reconcile tr fmt ?s1 c)) = snd (fst ?s1) @ map (clone_of (fst (snd (fst c)))) gs"
    and e: "no_features (fst (snd c)) \<longrightarrow> gs = []"
    by blast
  show ?case
  proof (intro exI[of _ "ys @ map (clone_of (fst (snd (fst c)))) gs"] conjI ballI)
    show "snd (fst (foldl (reconcile tr fmt) s (cs @ [c]))) = snd (fst s) @ ys @ map (clone_of (fst (snd (fst c)))) gs"
      using n ys(1) by simp
  next
    fix y assume "y \<in> set (ys @ map (clone_of (fst (snd (fst c)))) gs)"
    then consider "y \<in> set ys" | "y \<in> set (map (clone_of (fst (snd (fst c)))) gs)" by auto
    then show "\<exists>c\<in>set (cs @ [c]). \<not> no_features (fst (snd c)) \<and> (\<exists>g. y = clone_of (fst (snd (fst c))) g)"
    proof cases
      case 1
      with ys(2) show ?thesis by auto
    next
      case 2
      then have "gs \<noteq> []" by auto
      with e have "\<not> no_features (fst (snd c))" by blast
      with 2 show ?thesis by auto
    qed
  qed
qed

section \<open>Frame operations\<close>

lemma columns_set_cell [simp]: "columns (set_cell df i c v) = columns df"
  by (simp add: set_cell_def)

lemma length_rows_set_cell [simp]: "length (rows (set_cell df i c v)) = length (rows df)"
  by (simp add: set_cell_def)

lemma nth_rows_set_cell:
  "rows (set_cell df i c v) ! j =
     (if j = i \<and> i < length (rows df) then (rows df ! i)[column_position (columns df) c := v]
      else rows df ! j)"
  by (cases "i < length (rows df)") (simp_all add: set_cell_def nth_list_update list_update_beyond)

lemma columns_write_all [simp]: "columns (write_all upd df) = columns df"
  unfolding write_all_def by (induction upd arbitrary: df) simp_all

lemma length_rows_write_all [simp]: "length (rows (write_all upd df)) = length (rows df)"
  unfolding write_all_def by (induction upd arbitrary: df) simp_all

lemma write_all_Cons:
  "write_all (u # us) df = write_all us (set_cell df (fst u) ''the_geom'' (PStr (snd u)))"
  by (simp add: write_all_def)

lemma write_all_Nil [simp]: "write_all [] df = df"
  by (simp add: write_all_def)

lemma write_all_untouched:
  "i \<notin> fst ` set upd \<Longrightarrow> rows (write_all upd df) ! i = rows df ! i"
proof (induction upd arbitrary: df)
  case Nil
  then show ?case by simp
next
  case (Cons u us)
  then show ?case by (simp add: write_all_Cons nth_rows_set_cell)
qed

lemma write_all_written:
  assumes "distinct (map fst upd)" "map_of upd i = Some g" "i < length (rows df)"
  shows "rows (write_all upd df) ! i =
           (rows df ! i)[column_position (columns df) ''the_geom'' := PStr g]"
  using assms
proof (induction upd arbitrary: df)
  case Nil
  then show ?case by simp
next
  case (Cons u us)
  show ?case
  proof (cases "fst u = i")
    case True
    with Cons.prems have "i \<notin> fst ` set us" "snd u = g" by auto
    then show ?thesis using True Cons.prems(3)
      by (simp add: write_all_Cons write_all_untouched nth_rows_set_cell)
  next
    case False
    with Cons.prems have "distinct (map fst us)" "map_of us i = Some g" by auto
    from Cons.IH[OF this, of "set_cell df (fst u) ''the_geom'' (PStr (snd u))"] Cons.prems(3) False
    show ?thesis by (simp add: write_all_Cons nth_rows_set_cell)
  qed
qed

lemma wf_frame_write_all: "wf_frame df \<Longrightarrow> wf_frame (write_all upd df)"
proof (induction upd arbitrary: df)
  case Nil
  then show ?case by simp
next
  case (Cons u us)
  have "wf_frame (set_cell df (fst u) ''the_geom'' (PStr (snd u)))"
  proof (cases "fst u < length (rows df)")
    case True
    then have "rows df ! fst u \<in> set (rows df)" by simp
    with Cons.prems show ?thesis
      by (auto simp: wf_frame_def set_cell_def dest!: set_update_subset_insert[THEN subsetD])
  next
    case False
    with Cons.prems show ?thesis by (simp add: wf_frame_def set_cell_def list_update_beyond)
  qed
  then show ?case by (simp add: write_all_Cons Cons.IH)
qed

lemma map_of_zip_update:
  "length r = length cols \<Longrightarrow> col \<in> set cols \<Longrightarrow>
     map_of (zip cols (r[column_position cols col := v])) = (map_of (zip cols r))(col \<mapsto> v)"
proof (induction cols arbitrary: r)
  case Nil
  then show ?case by simp
next
  case (Cons c cols)
  then obtain x xs where r: "r = x # xs" by (cases r) auto
  show ?case
  proof (cases "c = col")
    case True
    then show ?thesis by (simp add: r column_position_def fun_eq_iff)
  next
    case False
    from Cons.prems False have "length xs = length cols" "col \<in> set cols" by (auto simp: r)
    then have "map_of (zip cols (xs[column_position cols col := v])) = (map_of (zip cols xs))(col \<mapsto> v)"
      by (rule Cons.IH)
    with False show ?thesis by (auto simp: r column_position_def fun_eq_iff)
  qed
qed

lemma map_cell_of_zip:
  "distinct cols \<Longrightarrow> length r = length cols \<Longrightarrow> map (cell_of (zip cols r)) cols = r"
proof (induction cols arbitrary: r)
  case Nil
  then show ?case by simp
next
  case (Cons c cols)
  then obtain x xs where r: "r = x # xs" by (cases r) auto
  from Cons have IH: "map (cell_of (zip cols xs)) cols = xs" by (simp add: r)
  have "map (cell_of (zip (c # cols) r)) cols = map (cell_of (zip cols xs)) cols"
    using Cons.prems(1) by (auto simp: r cell_of_def)
  with IH have t: "map (cell_of (zip (c # cols) r)) cols = xs" by simp
  have h: "cell_of (zip (c # cols) r) c = x" by (simp add: r cell_of_def)
  show ?case by (simp only: list.map h t) (simp add: r)
qed

lemma cell_of_zip_absent:
  "c \<notin> set cols \<Longrightarrow> cell_of (zip cols r) c = PNaN"
proof -
  assume "c \<notin> set cols"
  then have "c \<notin> fst ` set (zip cols r)" by (auto dest: set_zip_leftD)
  then have "map_of (zip cols r) c = None" by (simp add: map_of_eq_None_iff)
  then show ?thesis by (simp add: cell_of_def)
qed

lemma cell_of_zip_map:
  "cell_of (zip cols (map f cols)) c = (if c \<in> set cols then f c else PNaN)"
proof -
  have "map_of (zip cols (map f cols)) c = (if c \<in> set cols then Some (f c) else None)"
    by (induction cols) auto
  then show ?thesis by (simp add: cell_of_def)
qed

lemma cell_of_absent: "c \<notin> fst ` set d \<Longrightarrow> cell_of d c = PNaN"
  by (simp add: cell_of_def map_of_eq_None_iff[THEN iffD2])

lemma set_first_seen [simp]: "set (first_seen ks) = set ks"
  by (simp add: first_seen_def)

lemma distinct_first_seen [simp]: "distinct (first_seen ks)"
  by (simp add: first_seen_def)

lemma columns_pd_concat:
  "columns (pd_concat df other) = columns df @ filter (\<lambda>c. c \<notin> set (columns df)) (columns other)"
  by (simp add: pd_concat_def Let_def)

lemma length_rows_pd_concat:
  "length (rows (pd_concat df other)) = length (rows df) + length (rows other)"
  by (simp add: pd_concat_def Let_def)

lemma nth_rows_pd_concat_old:
  assumes "i < length (rows df)" "distinct (columns df)" "length (rows df ! i) = length (columns df)"
  shows "rows (pd_concat df other) ! i =
     rows df ! i @ replicate (length (columns (pd_concat df other)) - length (columns df)) PNaN"
proof -
  let ?extra = "filter (\<lambda>c. c \<notin> set (columns df)) (columns other)"
  have "rows (pd_concat df other) ! i =
        map (cell_of (zip (columns df) (rows df ! i))) (columns df @ ?extra)"
    using assms(1) by (simp add: pd_concat_def Let_def nth_append)
  also have "\<dots> = rows df ! i @ map (cell_of (zip (columns df) (rows df ! i))) ?extra"
    using assms(2,3) by (simp add: map_cell_of_zip)
  also have "map (cell_of (zip (columns df) (rows df ! i))) ?extra = replicate (length ?extra) PNaN"
    by (rule map_replicate_const[THEN subst, of "\<lambda>xs. map _ ?extra = xs"])
       (rule map_cong, simp_all add: cell_of_zip_absent)
  finally show ?thesis by (simp add: columns_pd_concat)
qed

lemma nth_rows_pd_concat_new:
  assumes "j < length dicts"
  shows "rows (pd_concat df (pd_DataFrame dicts)) ! (length (rows df) + j) =
     map (cell_of (dicts ! j)) (columns (pd_concat df (pd_DataFrame dicts)))"
proof -
  let ?ocols = "first_seen (concat (map (map fst) dicts))"
  let ?cols = "columns (pd_concat df (pd_DataFrame dicts))"
  have "rows (pd_concat df (pd_DataFrame dicts)) ! (length (rows df) + j) =
     map (cell_of (zip ?ocols (map (cell_of (dicts ! j)) ?ocols))) ?cols"
    using assms by (simp add: pd_concat_def pd_DataFrame_def Let_def nth_append)
  also have "\<dots> = map (cell_of (dicts ! j)) ?cols"
  proof (rule map_cong[OF refl])
    fix c
    have "dicts ! j \<in> set dicts" using assms by simp
    then have "c \<notin> set ?ocols \<Longrightarrow> c \<notin> fst ` set (dicts ! j)"
      by force
    then show "cell_of (zip ?ocols (map (cell_of (dicts ! j)) ?ocols)) c = cell_of (dicts ! j) c"
      by (auto simp: cell_of_zip_map cell_of_absent)
  qed
  finally show ?thesis .
qed

section \<open>A run seen from one lookup\<close>

lemma map_of_clone_of:
  "map_of (clone_of row g) c = (if c = ''the_geom'' then Some (PStr g) else map_of row c)"
  by (simp add: clone_of_def update_conv')


lemma itertuples_Index:
  "i < length (rows df) \<Longrightarrow> map_of (itertuples uid df ! i) ''Index'' = Some (PInt (int i))"
  by (simp add: nth_itertuples field_names_Index)

lemma completion_order_set:
  assumes "completion_order n order"
  shows "set order = {0..<n}" and "distinct order"
proof -
  from assms have s: "sort order = [0..<n]" by (simp add: completion_order_def)
  have "set order = set (sort order)" by simp
  then show "set order = {0..<n}" unfolding s by simp
  have "distinct (sort order)" unfolding s by simp
  then show "distinct order" by simp
qed

lemma completion_order_split:
  assumes "completion_order n order" "k < n"
  obtains o1 o2 where "order = o1 @ k # o2" "k \<notin> set o1" "k \<notin> set o2"
    "set o1 \<subseteq> {0..<n}" "set o2 \<subseteq> {0..<n}"
proof -
  from completion_order_set[OF assms(1)] assms(2) have k: "k \<in> set order" and d: "distinct order"
    and s: "set order = {0..<n}" by auto
  from split_list[OF k] obtain o1 o2 where o: "order = o1 @ k # o2" by blast
  with d have "k \<notin> set o1" "k \<notin> set o2" by auto
  moreover from s o have "set o1 \<subseteq> {0..<n}" "set o2 \<subseteq> {0..<n}" by auto
  ultimately show thesis using o that by blast
qed

lemma dispatch_append:
  "dispatch http api_type tasks (o1 @ o2) = dispatch http api_type tasks o1 @ dispatch http api_type tasks o2"
  by (simp add: dispatch_def)

lemma dispatch_Cons:
  "dispatch http api_type tasks (k # o2) =
     (tasks ! k, fetch_geocode (http (fst (tasks ! k))) (snd (snd (tasks ! k))) api_type) # dispatch http api_type tasks o2"
  by (simp add: dispatch_def)

lemma dispatch_items:
  assumes "c \<in> set (dispatch http api_type tasks os)" "set os \<subseteq> {0..<length tasks}"
  shows "\<exists>j\<in>set os. j < length tasks \<and> fst c = tasks ! j"
proof -
  from assms(1) obtain j where j: "j \<in> set os" "fst c = tasks ! j"
    by (auto simp: dispatch_def)
  with assms(2) have "j < length tasks" by auto
  with j show ?thesis by blast
qed

lemma tasks_distinct:
  assumes "rows_to_process uid df = Inr tasks"
  shows "distinct (map fst tasks)"
  unfolding rows_to_process_Inr(1)[OF assms] by simp

lemma tasks_idx_inj:
  assumes "rows_to_process uid df = Inr tasks" "j < length tasks" "k < length tasks" "fst (tasks ! j) = fst (tasks ! k)"
  shows "j = k"
  using nth_eq_iff_index_eq[OF tasks_distinct[OF assms(1)], of j k] assms(2-4) by simp

lemma dispatch_other_idx:
  assumes "rows_to_process uid df = Inr tasks" "k < length tasks" "k \<notin> set os" "set os \<subseteq> {0..<length tasks}"
    "c \<in> set (dispatch http api_type tasks os)"
  shows "fst (fst c) \<noteq> fst (tasks ! k)" "fst (fst c) < length (rows df)"
    "fst (snd (fst c)) = itertuples uid df ! fst (fst c)"
proof -
  from dispatch_items[OF assms(5,4)] obtain j where j: "j \<in> set os" "j < length tasks" "fst c = tasks ! j"
    by blast
  with assms(3) have "j \<noteq> k" by auto
  with tasks_idx_inj[OF assms(1) j(2) assms(2)] show "fst (fst c) \<noteq> fst (tasks ! k)"
    using j(3) by auto
  from j(2) have "tasks ! j \<in> set tasks" by simp
  with rows_to_process_Inr(2)[OF assms(1)] j(3)
  show "fst (fst c) < length (rows df)" "fst (snd (fst c)) = itertuples uid df ! fst (fst c)" by auto
qed

text \<open>A run, seen from the lookup of one task: what came before it, its own pass, what came after.\<close>

lemma run_focus:
  assumes t: "rows_to_process uid df = Inr tasks" and o: "completion_order (length tasks) order"
    and k: "k < length tasks"
  obtains pre post where
    "dispatch http api_type tasks order =
       pre @ (tasks ! k, fetch_geocode (http (fst (tasks ! k))) (snd (snd (tasks ! k))) api_type) # post"
    "\<forall>c\<in>set pre \<union> set post. fst (fst c) \<noteq> fst (tasks ! k) \<and> fst (fst c) < length (rows df) \<and>
        fst (snd (fst c)) = itertuples uid df ! fst (fst c)"
proof -
  from completion_order_split[OF o k] obtain o1 o2 where o12: "order = o1 @ k # o2" "k \<notin> set o1" "k \<notin> set o2"
    "set o1 \<subseteq> {0..<length tasks}" "set o2 \<subseteq> {0..<length tasks}" by blast
  let ?pre = "dispatch http api_type tasks o1" and ?post = "dispatch http api_type tasks o2"
  have 1: "dispatch http api_type tasks order =
       ?pre @ (tasks ! k, fetch_geocode (http (fst (tasks ! k))) (snd (snd (tasks ! k))) api_type) # ?post"
    by (simp add: o12(1) dispatch_append dispatch_Cons)
  have 2: "\<forall>c\<in>set ?pre \<union> set ?post. fst (fst c) \<noteq> fst (tasks ! k) \<and> fst (fst c) < length (rows df) \<and>
        fst (snd (fst c)) = itertuples uid df ! fst (fst c)"
    using dispatch_other_idx[OF t k o12(2) o12(4)] dispatch_other_idx[OF t k o12(3) o12(5)]
    by blast
  from 1 2 show thesis by (rule that)
qed

lemma fold_new_rows_other:
  assumes "\<forall>c\<in>set cs. fst (fst c) \<noteq> i \<and> fst (fst c) < length (rows df) \<and>
        fst (snd (fst c)) = itertuples uid df ! fst (fst c)"
  shows "\<exists>ys. snd (fst (foldl (reconcile tr fmt) s cs)) = snd (fst s) @ ys \<and>
     (\<forall>y\<in>set ys. map_of y ''Index'' \<noteq> Some (PInt (int i)))"
proof -
  from fold_new_rows[of tr fmt s cs] obtain ys where ys: "snd (fst (foldl (reconcile tr fmt) s cs)) = snd (fst s) @ ys"
    "\<forall>y\<in>set ys. \<exists>c\<in>set cs. \<not> no_features (fst (snd c)) \<and> (\<exists>g. y = clone_of (fst (snd (fst c))) g)"
    by blast
  have "\<forall>y\<in>set ys. map_of y ''Index'' \<noteq> Some (PInt (int i))"
  proof
    fix y assume "y \<in> set ys"
    with ys(2) obtain c g where c: "c \<in> set cs" "y = clone_of (fst (snd (fst c))) g" by blast
    with assms have "fst (fst c) \<noteq> i" "fst (fst c) < length (rows df)" "fst (snd (fst c)) = itertuples uid df ! fst (fst c)"
      by auto
    then show "map_of y ''Index'' \<noteq> Some (PInt (int i))"
      by (simp add: c(2) map_of_clone_of itertuples_Index)
  qed
  with ys(1) show ?thesis by blast
qed

section \<open>The output frame\<close>

lemma cell_padded:
  assumes "length r = length cols" "c \<in> set cols"
  shows "cell_of (zip (cols @ extra) (r @ pad)) c = cell_of (zip cols r) c"
proof -
  from assms have "c \<in> fst ` set (zip cols r)"
    by (metis map_fst_zip set_map)
  then have "map_of (zip cols r) c \<noteq> None" by (simp add: map_of_eq_None_iff)
  then show ?thesis using assms(1) by (auto simp: cell_of_def zip_append map_add_def split: option.splits)
qed

lemma assemble_columns:
  "columns (assemble df st) =
     columns df @ (if snd st = [] then []
                   else filter (\<lambda>c. c \<notin> set (columns df)) (first_seen (concat (map (map fst) (snd st)))))"
  by (simp add: assemble_def Let_def columns_pd_concat pd_DataFrame_def)

lemma assemble_length_rows:
  "length (rows (assemble df st)) = length (rows df) + length (snd st)"
  by (simp add: assemble_def Let_def length_rows_pd_concat pd_DataFrame_def)

lemma assemble_old_row:
  assumes "wf_frame df" "i < length (rows df)"
  shows "rows (assemble df st) ! i =
     rows (write_all (fst st) df) ! i @
       replicate (length (columns (assemble df st)) - length (columns df)) PNaN"
proof -
  let ?df1 = "write_all (fst st) df"
  from wf_frame_write_all[OF assms(1)] have wf1: "wf_frame ?df1" .
  from assms(2) have i1: "i < length (rows ?df1)" by simp
  then have "rows ?df1 ! i \<in> set (rows ?df1)" by (rule nth_mem)
  with wf1 have len: "length (rows ?df1 ! i) = length (columns ?df1)" and d: "distinct (columns ?df1)"
    by (auto simp: wf_frame_def)
  show ?thesis
  proof (cases "snd st = []")
    case True
    then show ?thesis by (simp add: assemble_def Let_def)
  next
    case False
    then show ?thesis
      using nth_rows_pd_concat_old[OF i1 d len, of "pd_DataFrame (snd st)"]
      by (simp add: assemble_def Let_def)
  qed
qed

lemma assemble_new_row:
  assumes "j < length (snd st)"
  shows "rows (assemble df st) ! (length (rows df) + j) = map (cell_of (snd st ! j)) (columns (assemble df st))"
proof -
  from assms have ne: "snd st \<noteq> []" by auto
  from nth_rows_pd_concat_new[OF assms, of "write_all (fst st) df"] ne
  show ?thesis by (simp add: assemble_def Let_def)
qed

lemma assemble_old_cell:
  assumes "wf_frame df" "i < length (rows df)" "c \<in> set (columns df)"
  shows "cell (assemble df st) i c = cell (write_all (fst st) df) i c"
proof -
  let ?df1 = "write_all (fst st) df"
  from assms(2) have "rows ?df1 ! i \<in> set (rows ?df1)" by simp
  with wf_frame_write_all[OF assms(1), of "fst st"] have len: "length (rows ?df1 ! i) = length (columns df)"
    by (simp add: wf_frame_def)
  have "columns (assemble df st) = columns df @ drop (length (columns df)) (columns (assemble df st))"
    by (simp add: assemble_columns)
  then obtain extra where e: "columns (assemble df st) = columns df @ extra" ..
  show ?thesis
    unfolding cell_def assemble_old_row[OF assms(1,2)] e
    using cell_padded[OF len assms(3)] by simp
qed

lemma cell_write_all_untouched:
  "map_of upd i = None \<Longrightarrow> cell (write_all upd df) i c = cell df i c"
  by (simp add: cell_def write_all_untouched map_of_eq_None_iff)

lemma cell_write_all_written:
  assumes "wf_frame df" "i < length (rows df)" "''the_geom'' \<in> set (columns df)"
    "distinct (map fst upd)" "map_of upd i = Some g"
  shows "cell (write_all upd df) i c = (if c = ''the_geom'' then PStr g else cell df i c)"
proof -
  from assms(2) have "rows df ! i \<in> set (rows df)" by simp
  with assms(1) have len: "length (rows df ! i) = length (columns df)" by (simp add: wf_frame_def)
  show ?thesis
    unfolding cell_def write_all_written[OF assms(4,5,2)]
    by (simp add: cell_of_def map_of_zip_update[OF len assms(3)])
qed

lemma map_of_itertuples:
  assumes "i < length (rows df)" "plain_label uid name" "name \<noteq> ''Index''"
  shows "map_of (itertuples uid df ! i) name = map_of (zip (columns df) (rows df ! i)) name"
  using assms(1,3) map_of_rename_fields[OF assms(2), of "[''Index'']" "Suc 0" "columns df" "rows df ! i"]
  by (simp add: nth_itertuples field_names_Index)

lemma getattr_itertuples:
  assumes "i < length (rows df)" "plain_label uid name" "name \<noteq> ''Index''"
  shows "getattr (itertuples uid df ! i) name = Inr v \<longleftrightarrow> map_of (zip (columns df) (rows df ! i)) name = Some v"
  by (auto simp: getattr_def map_of_itertuples[OF assms] split: option.splits)

lemma lacks_geometry_cell:
  assumes "i < length (rows df)" "lacks_geometry (itertuples uid df ! i)"
  shows "isna (cell df i ''the_geom'')" "''the_geom'' \<in> set (columns df)"
proof -
  from assms(2) obtain g where g: "getattr (itertuples uid df ! i) ''the_geom'' = Inr g" "isna g"
    by (auto simp: lacks_geometry_def split: sum.splits)
  with getattr_itertuples[OF assms(1) plain_label_the_geom, where v=g]
  have m: "map_of (zip (columns df) (rows df ! i)) ''the_geom'' = Some g" by simp
  with g(2) show "isna (cell df i ''the_geom'')" by (simp add: cell_def cell_of_def)
  from m have "''the_geom'' \<in> fst ` set (zip (columns df) (rows df ! i))"
    by (metis map_of_eq_None_iff option.distinct(1))
  then show "''the_geom'' \<in> set (columns df)" by (auto dest: set_zip_leftD)
qed

lemma task_lacks_geometry:
  assumes "rows_to_process uid df = Inr tasks" "t \<in> set tasks"
  shows "fst t < length (rows df)" "lacks_geometry (itertuples uid df ! fst t)"
    "fst (snd t) = itertuples uid df ! fst t"
proof -
  from assms(2) have "fst t \<in> set (map fst tasks)" by simp
  then show "lacks_geometry (itertuples uid df ! fst t)"
    unfolding rows_to_process_Inr(1)[OF assms(1)] by simp
  from rows_to_process_Inr(2)[OF assms(1)] assms(2)
  show "fst t < length (rows df)" "fst (snd t) = itertuples uid df ! fst t" by auto
qed

lemma run_keys:
  assumes "rows_to_process uid df = Inr tasks" "set order \<subseteq> {0..<length tasks}"
  shows "fst ` set (fst (fst (reconcile_all tr fmt (dispatch http api_type tasks order)))) \<subseteq> fst ` set tasks"
proof -
  have "(\<lambda>c. fst (fst c)) ` set (dispatch http api_type tasks order) \<subseteq> fst ` set tasks"
    using assms(2) by (auto simp: dispatch_def)
  with fold_updates_keys[of tr fmt "(([], []), [])" "dispatch http api_type tasks order"]
  show ?thesis by (auto simp: reconcile_all_def)
qed

lemma run_distinct:
  "distinct (map fst (fst (fst (reconcile_all tr fmt cs))))"
  unfolding reconcile_all_def by (rule fold_updates_distinct) simp

section \<open>Assignments that raise\<close>

lemma column_cells_set_cell:
  "column_cells (set_cell df i col v) col =
     (if i < length (rows df) \<and> column_position (columns df) col < length (rows df ! i)
      then (column_cells df col)[i := v] else column_cells df col)"
proof (cases "i < length (rows df)")
  case False
  then show ?thesis by (simp add: column_cells_def set_cell_def list_update_beyond cong: if_cong)
next
  case True
  show ?thesis
  proof (cases "column_position (columns df) col < length (rows df ! i)")
    case True
    with \<open>i < length (rows df)\<close> show ?thesis
      by (simp add: column_cells_def set_cell_def map_update cong: if_cong)
  next
    case False
    then have "(rows df ! i)[column_position (columns df) col := v] = rows df ! i"
      by (simp add: list_update_beyond)
    with False show ?thesis by (simp add: column_cells_def set_cell_def cong: if_cong)
  qed
qed

lemma numeric_dtype_text: "\<not> numeric_dtype cells \<Longrightarrow> \<not> numeric_dtype (cells[i := PStr s])"
proof (cases "i < length cells")
  case True
  then have "PStr s \<in> set (cells[i := PStr s])" by (rule set_update_memI)
  then have "\<not> list_all is_number (cells[i := PStr s])" "\<not> list_all is_bool (cells[i := PStr s])"
    by (auto simp: list_all_iff intro!: bexI[of _ "PStr s"])
  then show ?thesis by (simp add: numeric_dtype_def)
next
  case False
  assume "\<not> numeric_dtype cells"
  with False show ?thesis by (simp add: list_update_beyond)
qed

lemma not_numeric_set_cell:
  "\<not> numeric_dtype (column_cells df col) \<Longrightarrow>
     \<not> numeric_dtype (column_cells (set_cell df i col (PStr s)) col)"
  by (simp add: column_cells_set_cell numeric_dtype_text)

text \<open>The update loop raises at its first assignment or not at all.\<close>

lemma apply_updates_eq:
  "apply_updates strict upd df =
     (if strict \<and> upd \<noteq> [] \<and> numeric_dtype (column_cells df ''the_geom'') then Inl TypeError
      else Inr (write_all upd df))"
proof (induction upd arbitrary: df)
  case Nil
  then show ?case by simp
next
  case (Cons u us)
  show ?case
  proof (cases "strict \<and> numeric_dtype (column_cells df ''the_geom'')")
    case True
    then show ?thesis by (simp add: df_at_set_def)
  next
    case False
    then have "\<not> (strict \<and> numeric_dtype
        (column_cells (set_cell df (fst u) ''the_geom'' (PStr (snd u))) ''the_geom''))"
      using not_numeric_set_cell by blast
    with False show ?thesis
      by (auto simp: df_at_set_def Cons.IH write_all_Cons)
  qed
qed

lemma finish_eq:
  "finish strict df st =
     (if strict \<and> fst st \<noteq> [] \<and> numeric_dtype (column_cells df ''the_geom'') then Inl TypeError
      else Inr (assemble df st))"
  by (simp add: finish_def assemble_def apply_updates_eq Let_def)

lemma main_eq:
  "main strict uid tr fmt http api_type order df =
     and_then (rows_to_process uid df) (\<lambda>tasks.
       if strict \<and> fst (fst (reconcile_all tr fmt (dispatch http api_type tasks order))) \<noteq> [] \<and>
          numeric_dtype (column_cells df ''the_geom'')
       then Inl TypeError
       else Inr (assemble df (fst (reconcile_all tr fmt (dispatch http api_type tasks order))),
                 snd (reconcile_all tr fmt (dispatch http api_type tasks order))))"
  by (cases "rows_to_process uid df") (simp_all add: main_def finish_eq Let_def and_then_def)

section \<open>Examples\<close>

lemma fields_endereco_the_geom:
  "field_names uid \<lparr>columns = [''endereco'', ''the_geom''], rows = rs\<rparr>
     = [''Index'', ''endereco'', ''the_geom'']"
  by (rule field_names_plain[THEN trans])
     (simp_all add: plain_label_endereco plain_label_the_geom)

lemma example_tasks:
  "rows_to_process uid example_frame =
     Inr [(1, [(''Index'', PInt 1), (''endereco'', PStr ''RUA A, 10 - PARANA''), (''the_geom'', PNaN)],
           ''RUA A, 10  PARANA PARANA'')]"
  by (simp add: example_frame_def rows_to_process_def itertuples_def enumerate_eq_zip getattr_def
        upt_rec fields_endereco_the_geom)

lemma example_fetch:
  "fetch_geocode (\<lambda>url. Inr (200, Inr body)) endereco ''geoapify'' = (body, [])"
  by (simp add: fetch_geocode_def fetch_geocode_try_def lower_def lower_char_def)

lemma example_reconcile:
  "reconcile_all example_transform example_fmt [((i, row, endereco), example_body, [])]
      = (([(i, ''POINT(1 2)'')], [AList.update ''the_geom'' (PStr ''POINT(3 4)'') row]), [])"
  by (simp add: reconcile_all_def reconcile_def reconcile_try_def example_body_def feature_of_def
        feature_coordinates_def convert_lat_lon_to_UTM_def duplicate_row_with_new_UTM_def
        example_transform_def example_fmt_def Let_def)

lemma example_frame_text: "\<not> numeric_dtype (column_cells example_frame ''the_geom'')"
  by (simp add: numeric_dtype_def column_cells_def example_frame_def column_position_def)

lemma scenario_tasks:
  "rows_to_process uid \<lparr>columns = [''endereco'', ''the_geom''], rows = [[PStr ''RUA A, 10 - PARANA'', PNaN]]\<rparr>
     = Inr [(0, [(''Index'', PInt 0), (''endereco'', PStr ''RUA A, 10 - PARANA''), (''the_geom'', PNaN)],
             ''RUA A, 10  PARANA PARANA'')]"
  by (simp add: rows_to_process_def itertuples_def enumerate_eq_zip getattr_def upt_rec
        fields_endereco_the_geom)

lemma example_projects:
  "projects_to example_transform example_fmt (PInt 1, PInt 2) ''POINT(1 2)''"
  "projects_to example_transform example_fmt (PInt 3, PInt 4) ''POINT(3 4)''"
  by (simp_all add: projects_to_def convert_lat_lon_to_UTM_def example_transform_def example_fmt_def)

lemma example_wellformed:
  "wellformed_feature (feature_of p) p"
  by (simp add: wellformed_feature_def feature_of_def)

section \<open>The address queries\<close>

text \<open>
  Claim C8, as amended. In a frame whose records all have the geometry attribute, and
  whose records lacking geometry have a string as address, the loop creates exactly one
  task for every record lacking geometry and none for the others, in the order of the
  frame: the task holds the position of the record, the record itself, and the query
  string, which is the address with every \<open>-\<close> removed, then every \<open>P/\<close> removed, and
  \<open> PARANA\<close> appended. Other punctuation stays.
\<close>

theorem address_queries:
  assumes "\<forall>r\<in>set (itertuples uid df). (\<exists>g. getattr r ''the_geom'' = Inr g) \<and>
             (lacks_geometry r \<longrightarrow> (\<exists>a. getattr r ''endereco'' = Inr (PStr a)))"
  shows "\<exists>tasks. rows_to_process uid df = Inr tasks \<and>
           map fst tasks = filter (\<lambda>i. lacks_geometry (itertuples uid df ! i)) [0..<length (rows df)] \<and>
           (\<forall>t\<in>set tasks. fst (snd t) = itertuples uid df ! fst t \<and> query_for (fst (snd t)) (snd (snd t)))"
proof -
  from rows_to_process_total[OF assms] obtain tasks where t: "rows_to_process uid df = Inr tasks" ..
  from rows_to_process_Inr[OF t] t show ?thesis by blast
qed

theorem address_queries_witness:
  "\<exists>tasks. rows_to_process (\<lambda>s. False)
       \<lparr>columns = [''endereco'', ''the_geom''],
        rows = [[PStr ''RUA A, 10 - PARANA'', PNaN], [PStr ''AV P/ B-2'', PStr ''POINT(1 2)'']]\<rparr> = Inr tasks \<and>
     map fst tasks = [0] \<and>
     (\<forall>t\<in>set tasks.
        fst (snd t) =
          itertuples (\<lambda>s. False) \<lparr>columns = [''endereco'', ''the_geom''],
            rows = [[PStr ''RUA A, 10 - PARANA'', PNaN], [PStr ''AV P/ B-2'', PStr ''POINT(1 2)'']]\<rparr> ! fst t \<and>
        query_for (fst (snd t)) (snd (snd t)))"
proof -
  let ?df = "\<lparr>columns = [''endereco'', ''the_geom''],
        rows = [[PStr ''RUA A, 10 - PARANA'', PNaN], [PStr ''AV P/ B-2'', PStr ''POINT(1 2)'']]\<rparr>"
  have h: "\<forall>r\<in>set (itertuples (\<lambda>s. False) ?df). (\<exists>g. getattr r ''the_geom'' = Inr g) \<and>
             (lacks_geometry r \<longrightarrow> (\<exists>a. getattr r ''endereco'' = Inr (PStr a)))"
    by (simp add: itertuples_def enumerate_eq_zip getattr_def lacks_geometry_def upt_rec
          fields_endereco_the_geom)
  have f: "filter (\<lambda>i. lacks_geometry (itertuples (\<lambda>s. False) ?df ! i)) [0..<length (rows ?df)] = [0]"
    by (simp add: itertuples_def enumerate_eq_zip getattr_def lacks_geometry_def upt_rec
          fields_endereco_the_geom)
  from address_queries[OF h] show ?thesis unfolding f .
qed

text \<open>
  The query string of the address \<open>RUA A, 10 - PARANA\<close> keeps its comma: it differs from
  the address with punctuation stripped and the suffix appended.
\<close>

theorem address_query_keeps_punctuation:
  "rows_to_process (\<lambda>s. False) \<lparr>columns = [''endereco'', ''the_geom''], rows = [[PStr ''RUA A, 10 - PARANA'', PNaN]]\<rparr>
     = Inr [(0, [(''Index'', PInt 0), (''endereco'', PStr ''RUA A, 10 - PARANA''), (''the_geom'', PNaN)],
             ''RUA A, 10  PARANA PARANA'')]
   \<and> spec_address_query ''RUA A, 10 - PARANA'' = ''RUA A 10  PARANA PARANA''
   \<and> ''RUA A, 10  PARANA PARANA'' \<noteq> spec_address_query ''RUA A, 10 - PARANA''"
  by (simp add: rows_to_process_def itertuples_def enumerate_eq_zip getattr_def upt_rec
        spec_address_query_def is_punctuation_def fields_endereco_the_geom)

section \<open>Empty results\<close>

lemma reconcile_no_features:
  "no_features data \<Longrightarrow>
     reconcile tr fmt (st, printed) ((row_idx, row, endereco), data, diag) = (st, printed @ diag)"
  by (simp add: reconcile_def Let_def reconcile_try_no_features)

lemma run_empty_lookup:
  assumes t: "rows_to_process uid df = Inr tasks" and o: "completion_order (length tasks) order"
    and k: "k < length tasks"
    and e: "no_features (fst (fetch_geocode (http (fst (tasks ! k))) (snd (snd (tasks ! k))) api_type))"
  shows "map_of (fst (fst (reconcile_all tr fmt (dispatch http api_type tasks order)))) (fst (tasks ! k)) = None"
    and "\<forall>y\<in>set (snd (fst (reconcile_all tr fmt (dispatch http api_type tasks order)))).
           map_of y ''Index'' \<noteq> Some (PInt (int (fst (tasks ! k))))"
proof -
  let ?ck = "(tasks ! k, fetch_geocode (http (fst (tasks ! k))) (snd (snd (tasks ! k))) api_type)"
  let ?cs = "dispatch http api_type tasks order"
  from run_focus[OF t o k, of http api_type] obtain pre post where
    cs: "?cs = pre @ ?ck # post"
    and others: "\<forall>c\<in>set pre \<union> set post. fst (fst c) \<noteq> fst (tasks ! k) \<and> fst (fst c) < length (rows df) \<and>
        fst (snd (fst c)) = itertuples uid df ! fst (fst c)"
    by blast
  have "\<forall>c\<in>set ?cs. fst (fst c) = fst (tasks ! k) \<longrightarrow> no_features (fst (snd c))"
    unfolding cs using others e by auto
  from fold_updates_other[OF this, of tr fmt "(([], []), [])"]
  show "map_of (fst (fst (reconcile_all tr fmt ?cs))) (fst (tasks ! k)) = None"
    by (simp add: reconcile_all_def)
  from fold_new_rows[of tr fmt "(([], []), [])" ?cs] obtain ys where
    ys: "snd (fst (reconcile_all tr fmt ?cs)) = ys"
      "\<forall>y\<in>set ys. \<exists>c\<in>set ?cs. \<not> no_features (fst (snd c)) \<and> (\<exists>g. y = clone_of (fst (snd (fst c))) g)"
    by (auto simp: reconcile_all_def)
  show "\<forall>y\<in>set (snd (fst (reconcile_all tr fmt ?cs))). map_of y ''Index'' \<noteq> Some (PInt (int (fst (tasks ! k))))"
  proof
    fix y assume "y \<in> set (snd (fst (reconcile_all tr fmt ?cs)))"
    with ys obtain c g where c: "c \<in> set ?cs" "\<not> no_features (fst (snd c))" "y = clone_of (fst (snd (fst c))) g"
      by blast
    from c(1,2) e have "c \<in> set pre \<union> set post" unfolding cs by auto
    with others have "fst (fst c) \<noteq> fst (tasks ! k)" "fst (fst c) < length (rows df)"
      "fst (snd (fst c)) = itertuples uid df ! fst (fst c)" by auto
    then show "map_of y ''Index'' \<noteq> Some (PInt (int (fst (tasks ! k))))"
      by (simp add: c(3) map_of_clone_of itertuples_Index)
  qed
qed

text \<open>
  Claim C4. None (the result of a failed lookup), an empty dict and a body with an empty
  \<open>features\<close> list are empty results. Reconciling an empty result leaves \<open>updates\<close> and
  \<open>new_rows\<close> as they are and raises nothing. In a whole run, whatever the order of
  completion and the results of the other lookups, a record whose lookup came back empty
  gets no entry in \<open>updates\<close>, no row of \<open>new_rows\<close> is a copy of it, and its geometry
  in the output frame is still missing. The output frame exists unless an assignment of
  another record's geometry raises, which only pandas from 3.0 on does, and only into a
  geometry column that holds no text.
\<close>

theorem empty_result_changes_nothing:
  "no_features PNone \<and> no_features (PDict []) \<and> no_features (PDict [(''features'', PList [])]) \<and>
   (no_features data \<longrightarrow>
      reconcile tr fmt (st, printed) ((row_idx, row, endereco), data, diag) = (st, printed @ diag)) \<and>
   (rows_to_process uid df = Inr tasks \<and> completion_order (length tasks) order \<and> wf_frame df \<and>
    k < length tasks \<and> tasks ! k = (row_idx, row, endereco) \<and>
    no_features (fst (fetch_geocode (http row_idx) endereco api_type)) \<longrightarrow>
      map_of (fst (fst (reconcile_all tr fmt (dispatch http api_type tasks order)))) row_idx = None \<and>
      (\<forall>y\<in>set (snd (fst (reconcile_all tr fmt (dispatch http api_type tasks order)))).
          map_of y ''Index'' \<noteq> Some (PInt (int row_idx))) \<and>
      (strict \<and> fst (fst (reconcile_all tr fmt (dispatch http api_type tasks order))) \<noteq> [] \<and>
       numeric_dtype (column_cells df ''the_geom'') \<longrightarrow>
         finish strict df (fst (reconcile_all tr fmt (dispatch http api_type tasks order)))
           = Inl TypeError) \<and>
      (\<not> (strict \<and> fst (fst (reconcile_all tr fmt (dispatch http api_type tasks order))) \<noteq> [] \<and>
          numeric_dtype (column_cells df ''the_geom'')) \<longrightarrow>
         (\<exists>out. finish strict df (fst (reconcile_all tr fmt (dispatch http api_type tasks order)))
              = Inr out \<and> isna (cell out row_idx ''the_geom''))))"
proof (intro conjI impI)
  show "no_features PNone" "no_features (PDict [])" "no_features (PDict [(''features'', PList [])])"
    by (simp_all add: no_features_def)
next
  assume "no_features data"
  then show "reconcile tr fmt (st, printed) ((row_idx, row, endereco), data, diag) = (st, printed @ diag)"
    by (rule reconcile_no_features)
next
  assume a: "rows_to_process uid df = Inr tasks \<and> completion_order (length tasks) order \<and> wf_frame df \<and>
    k < length tasks \<and> tasks ! k = (row_idx, row, endereco) \<and>
    no_features (fst (fetch_geocode (http row_idx) endereco api_type))"
  then have t: "rows_to_process uid df = Inr tasks" and o: "completion_order (length tasks) order"
    and wf: "wf_frame df" and k: "k < length tasks" and tk: "tasks ! k = (row_idx, row, endereco)"
    and e: "no_features (fst (fetch_geocode (http (fst (tasks ! k))) (snd (snd (tasks ! k))) api_type))"
    by simp_all
  let ?st = "fst (reconcile_all tr fmt (dispatch http api_type tasks order))"
  from run_empty_lookup[where http=http and api_type=api_type and tr=tr and fmt=fmt, OF t o k e] tk
  show n: "map_of (fst ?st) row_idx = None"
    and "\<forall>y\<in>set (snd ?st). map_of y ''Index'' \<noteq> Some (PInt (int row_idx))" by simp_all
  from k have "tasks ! k \<in> set tasks" by simp
  from task_lacks_geometry[OF t this] tk
  have i: "row_idx < length (rows df)" and l: "lacks_geometry (itertuples uid df ! row_idx)" by simp_all
  from lacks_geometry_cell[OF i l] have "isna (cell df row_idx ''the_geom'')" "''the_geom'' \<in> set (columns df)" .
  then have "isna (cell (assemble df ?st) row_idx ''the_geom'')"
    by (simp add: assemble_old_cell[OF wf i] cell_write_all_untouched[OF n])
  then show "\<exists>out. finish strict df ?st = Inr out \<and> isna (cell out row_idx ''the_geom'')"
    if "\<not> (strict \<and> fst ?st \<noteq> [] \<and> numeric_dtype (column_cells df ''the_geom''))"
    using that by (intro exI[of _ "assemble df ?st"]) (auto simp: finish_eq)
  show "finish strict df ?st = Inl TypeError"
    if "strict \<and> fst ?st \<noteq> [] \<and> numeric_dtype (column_cells df ''the_geom'')"
    using that by (simp add: finish_eq)
qed

theorem empty_result_changes_nothing_witness:
  "reconcile example_transform example_fmt (([], []), [])
      ((1, [(''Index'', PInt 1), (''endereco'', PStr ''RUA A, 10 - PARANA''), (''the_geom'', PNaN)],
           ''RUA A, 10  PARANA PARANA''), PNone, [])
     = (([], []), [])
   \<and> (\<exists>out. finish True example_frame (fst (reconcile_all example_transform example_fmt
        (dispatch (\<lambda>i url. Inl (LibraryError ''ReadTimeout'')) ''geoapify''
           [(1, [(''Index'', PInt 1), (''endereco'', PStr ''RUA A, 10 - PARANA''), (''the_geom'', PNaN)],
           ''RUA A, 10  PARANA PARANA'')] [0]))) = Inr out \<and> isna (cell out 1 ''the_geom''))"
proof -
  let ?row = "[(''Index'', PInt 1), (''endereco'', PStr ''RUA A, 10 - PARANA''), (''the_geom'', PNaN)]"
  let ?tasks = "[(1::nat, ?row, ''RUA A, 10  PARANA PARANA'')]"
  let ?http = "\<lambda>(i::nat) (url::string). (Inl (LibraryError ''ReadTimeout'') :: exn + response)"
  note c4 = empty_result_changes_nothing[where data=PNone and tr=example_transform and fmt=example_fmt
       and st="([], [])" and printed="[]" and row_idx=1 and row="?row"
       and endereco="''RUA A, 10  PARANA PARANA''" and diag="[]" and uid="\<lambda>s. False"
       and df=example_frame and tasks="?tasks" and order="[0]" and k=0 and http="?http"
       and api_type="''geoapify''" and strict=True]
  have h: "rows_to_process (\<lambda>s. False) example_frame = Inr ?tasks \<and> completion_order (length ?tasks) [0] \<and>
     wf_frame example_frame \<and> 0 < length ?tasks \<and> ?tasks ! 0 = (1, ?row, ''RUA A, 10  PARANA PARANA'') \<and>
     no_features (fst (fetch_geocode (?http 1) ''RUA A, 10  PARANA PARANA'' ''geoapify''))"
    by (intro conjI, rule example_tasks)
       (simp_all add: completion_order_def wf_frame_def example_frame_def
          fetch_geocode_def fetch_geocode_try_def no_features_def)
  have d: "\<not> (True \<and> fst (fst (reconcile_all example_transform example_fmt
        (dispatch ?http ''geoapify'' ?tasks [0]))) \<noteq> [] \<and>
      numeric_dtype (column_cells example_frame ''the_geom''))"
    using example_frame_text by simp
  from c4 have n: "no_features PNone" by blast
  from c4 n have 1: "reconcile example_transform example_fmt (([], []), []) ((1, ?row, ''RUA A, 10  PARANA PARANA''), PNone, [])
     = (([], []), [] @ [])" by blast
  note run = c4[THEN conjunct2, THEN conjunct2, THEN conjunct2, THEN conjunct2, THEN mp, OF h]
  from 1 run[THEN conjunct2, THEN conjunct2, THEN conjunct2, THEN mp, OF d]
  show ?thesis by simp
qed

section \<open>Results with coordinate pairs\<close>

lemma reconcile_wellformed:
  assumes "map_of d ''features'' = Some (PList fs)"
    and "list_all2 wellformed_feature fs (p # ps)"
    and "list_all2 (projects_to tr fmt) (p # ps) (g # gs)"
  shows "reconcile tr fmt ((upd, new), printed) ((row_idx, row, endereco), PDict d, diag) =
            ((AList.update row_idx g upd, new @ map (clone_of row) gs), printed @ diag)"
  by (simp add: reconcile_def Let_def reconcile_try_wellformed[OF assms])

lemma run_wellformed_lookup:
  assumes t: "rows_to_process uid df = Inr tasks" and o: "completion_order (length tasks) order"
    and k: "k < length tasks"
    and f: "fst (fetch_geocode (http (fst (tasks ! k))) (snd (snd (tasks ! k))) api_type) = PDict d"
    and d: "map_of d ''features'' = Some (PList fs)"
    and w: "list_all2 wellformed_feature fs (p # ps)"
    and g: "list_all2 (projects_to tr fmt) (p # ps) (g # gs)"
  shows "map_of (fst (fst (reconcile_all tr fmt (dispatch http api_type tasks order)))) (fst (tasks ! k)) = Some g"
    and "filter (\<lambda>r. map_of r ''Index'' = Some (PInt (int (fst (tasks ! k)))))
           (snd (fst (reconcile_all tr fmt (dispatch http api_type tasks order))))
         = map (clone_of (fst (snd (tasks ! k)))) gs"
proof -
  let ?idx = "fst (tasks ! k)" and ?row = "fst (snd (tasks ! k))"
  let ?fetch = "fetch_geocode (http (fst (tasks ! k))) (snd (snd (tasks ! k))) api_type"
  let ?ck = "(tasks ! k, ?fetch)"
  let ?cs = "dispatch http api_type tasks order"
  let ?P = "\<lambda>r. map_of r ''Index'' = Some (PInt (int ?idx))"
  from run_focus[OF t o k, of http api_type] obtain pre post where
    cs: "?cs = pre @ ?ck # post"
    and others: "\<forall>c\<in>set pre \<union> set post. fst (fst c) \<noteq> ?idx \<and> fst (fst c) < length (rows df) \<and>
        fst (snd (fst c)) = itertuples uid df ! fst (fst c)"
    by blast
  let ?s1 = "foldl (reconcile tr fmt) (([], []), []) pre"
  let ?s2 = "reconcile tr fmt ?s1 ?ck"
  have final: "reconcile_all tr fmt ?cs = foldl (reconcile tr fmt) ?s2 post"
    by (simp add: reconcile_all_def cs)
  obtain upd1 new1 where s1: "fst ?s1 = (upd1, new1)" by (cases "fst ?s1")
  have s2: "fst ?s2 = (AList.update ?idx g upd1, new1 @ map (clone_of ?row) gs)"
    by (simp add: fst_reconcile s1 f reconcile_try_wellformed[OF d w g])
  have pre_o: "\<forall>c\<in>set pre. fst (fst c) \<noteq> ?idx \<and> fst (fst c) < length (rows df) \<and>
        fst (snd (fst c)) = itertuples uid df ! fst (fst c)"
    and post_o: "\<forall>c\<in>set post. fst (fst c) \<noteq> ?idx \<and> fst (fst c) < length (rows df) \<and>
        fst (snd (fst c)) = itertuples uid df ! fst (fst c)"
    using others by auto
  have "map_of (fst (fst (foldl (reconcile tr fmt) ?s2 post))) ?idx = map_of (fst (fst ?s2)) ?idx"
    by (rule fold_updates_other) (use post_o in auto)
  then show "map_of (fst (fst (reconcile_all tr fmt ?cs))) ?idx = Some g"
    by (simp add: final s2 update_conv')
  from fold_new_rows_other[OF pre_o, of tr fmt "(([], []), [])"] s1
  have n1: "\<forall>y\<in>set new1. \<not> ?P y" by auto
  from fold_new_rows_other[OF post_o, of tr fmt ?s2] obtain ys where
    ys: "snd (fst (foldl (reconcile tr fmt) ?s2 post)) = snd (fst ?s2) @ ys" "\<forall>y\<in>set ys. \<not> ?P y"
    by blast
  from k have "tasks ! k \<in> set tasks" by simp
  from task_lacks_geometry[OF t this] have "?idx < length (rows df)" "?row = itertuples uid df ! ?idx"
    by simp_all
  then have cl: "\<forall>y\<in>set (map (clone_of ?row) gs). ?P y"
    by (simp add: map_of_clone_of itertuples_Index)
  have "filter ?P (snd (fst (reconcile_all tr fmt ?cs))) =
        filter ?P new1 @ filter ?P (map (clone_of ?row) gs) @ filter ?P ys"
    by (simp add: final ys(1) s2)
  also have "filter ?P new1 = []" using n1 by (simp add: filter_empty_conv)
  also have "filter ?P ys = []" using ys(2) by (simp add: filter_empty_conv)
  also have "filter ?P (map (clone_of ?row) gs) = map (clone_of ?row) gs"
    using cl by (simp only: filter_True)
  finally show "filter ?P (snd (fst (reconcile_all tr fmt ?cs))) = map (clone_of ?row) gs" by simp
qed



lemma cell_of_clone_geometry: "cell_of (clone_of row g) ''the_geom'' = PStr g"
  by (simp add: cell_of_def map_of_clone_of)

text \<open>
  What a lookup with the pairs \<open>p # ps\<close> does to the output frame, when no assignment
  raises: the record has the reprojection of the first pair as its geometry and its
  other cells as before; \<open>new_rows\<close> holds one dict for each further pair, the named
  tuple of the record with the reprojection of that pair as geometry; the output has one
  row more for each element of \<open>new_rows\<close>, holding the fields of that element under
  the columns of the output.
\<close>

lemma first_pair_written:
  assumes t: "rows_to_process uid df = Inr tasks" and o: "completion_order (length tasks) order"
    and wf: "wf_frame df" and k: "k < length tasks" and tk: "tasks ! k = (row_idx, row, endereco)"
    and f: "fst (fetch_geocode (http row_idx) endereco api_type) = PDict d"
    and d: "map_of d ''features'' = Some (PList fs)"
    and w: "list_all2 wellformed_feature fs (p # ps)"
    and g: "list_all2 (projects_to tr fmt) (p # ps) (g # gs)"
    and out: "finish strict df (fst (reconcile_all tr fmt (dispatch http api_type tasks order))) = Inr out"
  shows "cell out row_idx ''the_geom'' = PStr g"
    and "\<forall>c\<in>set (columns df). c \<noteq> ''the_geom'' \<longrightarrow> cell out row_idx c = cell df row_idx c"
    and "filter (\<lambda>r. map_of r ''Index'' = Some (PInt (int row_idx)))
           (snd (fst (reconcile_all tr fmt (dispatch http api_type tasks order))))
         = map (clone_of row) gs"
    and "length gs = length ps"
    and "length (rows out) = length (rows df)
           + length (snd (fst (reconcile_all tr fmt (dispatch http api_type tasks order))))"
    and "\<forall>j<length (snd (fst (reconcile_all tr fmt (dispatch http api_type tasks order)))).
           rows out ! (length (rows df) + j)
             = map (cell_of (snd (fst (reconcile_all tr fmt (dispatch http api_type tasks order))) ! j))
                 (columns out)"
proof -
  let ?st = "fst (reconcile_all tr fmt (dispatch http api_type tasks order))"
  from out have o': "out = assemble df ?st" by (auto simp: finish_eq split: if_splits)
  from f tk have f': "fst (fetch_geocode (http (fst (tasks ! k))) (snd (snd (tasks ! k))) api_type) = PDict d"
    by simp
  from run_wellformed_lookup(2)[where http=http and api_type=api_type and tr=tr and fmt=fmt,
      OF t o k f' d w g] tk
  show "filter (\<lambda>r. map_of r ''Index'' = Some (PInt (int row_idx))) (snd ?st) = map (clone_of row) gs"
    by simp
  from run_wellformed_lookup(1)[where http=http and api_type=api_type and tr=tr and fmt=fmt,
      OF t o k f' d w g] tk
  have m: "map_of (fst ?st) row_idx = Some g" by simp
  from k have "tasks ! k \<in> set tasks" by simp
  from task_lacks_geometry[OF t this] tk
  have i: "row_idx < length (rows df)" and l: "lacks_geometry (itertuples uid df ! row_idx)" by simp_all
  from lacks_geometry_cell[OF i l] have geom: "''the_geom'' \<in> set (columns df)" by simp
  have dist: "distinct (map fst (fst ?st))" by (rule run_distinct)
  show "cell out row_idx ''the_geom'' = PStr g"
    by (simp add: o' assemble_old_cell[OF wf i geom] cell_write_all_written[OF wf i geom dist m])
  show "\<forall>c\<in>set (columns df). c \<noteq> ''the_geom'' \<longrightarrow> cell out row_idx c = cell df row_idx c"
    by (simp add: o' assemble_old_cell[OF wf i] cell_write_all_written[OF wf i geom dist m])
  show "length gs = length ps" using g by (auto dest: list_all2_lengthD)
  show "length (rows out) = length (rows df) + length (snd ?st)"
    unfolding o' by (rule assemble_length_rows)
  show "\<forall>j<length (snd ?st). rows out ! (length (rows df) + j)
             = map (cell_of (snd ?st ! j)) (columns out)"
    unfolding o' using assemble_new_row by blast
qed

text \<open>
  Claim C1, at an input where it fails. The frame has a column whose label is not an
  identifier, a resolved record, and an unresolved record whose lookup returns two
  features. The first pair is written into the geometry of the record and one row is
  appended for the second pair, with the reprojection of that pair as its geometry. But
  the appended row is not the record with another geometry: it has no value under
  \<open>num casa\<close>, where the record has 10, and it has values under two columns that the
  input does not have, \<open>Index\<close> and \<open>_2\<close>, where the record has none.
\<close>

theorem clone_differs_from_record:
  "main strict uid example_transform example_fmt (\<lambda>i url. Inr (200, Inr example_body)) ''geoapify'' [0]
     \<lparr>columns = [''endereco'', ''num casa'', ''the_geom''],
      rows = [[PStr ''RUA B 20'', PInt 20, PStr ''POINT(7 8)''],
              [PStr ''RUA A, 10 - PARANA'', PInt 10, PNaN]]\<rparr>
   = Inr (\<lparr>columns = [''endereco'', ''num casa'', ''the_geom'', ''Index'', ''_2''],
            rows = [[PStr ''RUA B 20'', PInt 20, PStr ''POINT(7 8)'', PNaN, PNaN],
                    [PStr ''RUA A, 10 - PARANA'', PInt 10, PStr ''POINT(1 2)'', PNaN, PNaN],
                    [PStr ''RUA A, 10 - PARANA'', PNaN, PStr ''POINT(3 4)'', PInt 1, PInt 10]]\<rparr>, [])"
proof -
  let ?df = "\<lparr>columns = [''endereco'', ''num casa'', ''the_geom''],
      rows = [[PStr ''RUA B 20'', PInt 20, PStr ''POINT(7 8)''],
              [PStr ''RUA A, 10 - PARANA'', PInt 10, PNaN]]\<rparr>"
  let ?row = "[(''Index'', PInt 1), (''endereco'', PStr ''RUA A, 10 - PARANA''), (''_2'', PInt 10),
      (''the_geom'', PNaN)]"
  let ?task = "(1::nat, ?row, ''RUA A, 10  PARANA PARANA'')"
  let ?st = "([(1::nat, ''POINT(1 2)'')], [AList.update ''the_geom'' (PStr ''POINT(3 4)'') ?row])"
  have fields: "field_names uid ?df = [''Index'', ''endereco'', ''_2'', ''the_geom'']"
    by (simp add: field_names_def isidentifier_def is_ascii_def identifier_start_def
          identifier_continue_def iskeyword_def decimal_small)
  have t: "rows_to_process uid ?df = Inr [?task]"
    by (simp add: rows_to_process_def itertuples_def enumerate_eq_zip getattr_def upt_rec fields)
  have d: "dispatch (\<lambda>i url. Inr (200, Inr example_body)) ''geoapify'' [?task] [0]
      = [(?task, example_body, [])]"
    by (simp add: dispatch_def example_fetch)
  have fin: "assemble ?df ?st
     = \<lparr>columns = [''endereco'', ''num casa'', ''the_geom'', ''Index'', ''_2''],
            rows = [[PStr ''RUA B 20'', PInt 20, PStr ''POINT(7 8)'', PNaN, PNaN],
                    [PStr ''RUA A, 10 - PARANA'', PInt 10, PStr ''POINT(1 2)'', PNaN, PNaN],
                    [PStr ''RUA A, 10 - PARANA'', PNaN, PStr ''POINT(3 4)'', PInt 1, PInt 10]]\<rparr>"
    by (simp add: assemble_def write_all_def set_cell_def column_position_def
          pd_concat_def pd_DataFrame_def first_seen_def cell_of_def Let_def)
  have "\<not> numeric_dtype (column_cells ?df ''the_geom'')"
    by (simp add: numeric_dtype_def column_cells_def column_position_def)
  then have f: "finish strict ?df ?st = Inr (assemble ?df ?st)"
    by (simp add: finish_eq)
  show ?thesis
    unfolding main_def t and_then_Inr d example_reconcile Let_def fst_conv snd_conv f fin ..
qed

section \<open>The Index field of cloned rows\<close>












section \<open>The geometry that is written\<close>

lemma process_features_single:
  assumes "wellformed_feature f (lon, lat)" "tr lon lat = Inr (x, y)"
  shows "process_features tr fmt row_idx row 0 [f] (upd, new) =
           ((AList.update row_idx (''POINT('' @ fmt x @ '' '' @ fmt y @ '')'') upd, new), None)"
    and "process_features tr fmt row_idx row (Suc i) [f] (upd, new) =
           ((upd, new @ [AList.update ''the_geom'' (PStr (''POINT('' @ fmt x @ '' '' @ fmt y @ '')'')) row]), None)"
proof -
  from wellformed_feature_coordinates[OF assms(1)] obtain c where c: "feature_coordinates f = Inr c"
    "py_index c 0 = Inr lon" "py_index c 1 = Inr lat" by auto
  with assms(2) show "process_features tr fmt row_idx row 0 [f] (upd, new) =
           ((AList.update row_idx (''POINT('' @ fmt x @ '' '' @ fmt y @ '')'') upd, new), None)"
    by (simp add: convert_lat_lon_to_UTM_def)
  from c assms(2) show "process_features tr fmt row_idx row (Suc i) [f] (upd, new) =
           ((upd, new @ [AList.update ''the_geom'' (PStr (''POINT('' @ fmt x @ '' '' @ fmt y @ '')'')) row]), None)"
    by (simp add: convert_lat_lon_to_UTM_def duplicate_row_with_new_UTM_def)
qed

lemma scenario_one_feature:
  assumes "tr lon lat = Inr (x, y)"
    and "http 0 ''http://localhost:8080/external/geocode-geoapify?address=RUA A, 10  PARANA PARANA''
          = Inr (200, Inr (PDict [(''features'', PList [feature_of (lon, lat)])]))"
  shows "main strict uid tr fmt http ''geoapify'' [0]
           \<lparr>columns = [''endereco'', ''the_geom''], rows = [[PStr ''RUA A, 10 - PARANA'', PNaN]]\<rparr>
         = (if strict then Inl TypeError
            else Inr (\<lparr>columns = [''endereco'', ''the_geom''],
                  rows = [[PStr ''RUA A, 10 - PARANA'', PStr (''POINT('' @ fmt x @ '' '' @ fmt y @ '')'')]]\<rparr>,
                []))"
proof -
  let ?df = "\<lparr>columns = [''endereco'', ''the_geom''], rows = [[PStr ''RUA A, 10 - PARANA'', PNaN]]\<rparr>"
  have f: "fetch_geocode (http 0) ''RUA A, 10  PARANA PARANA'' ''geoapify''
      = (PDict [(''features'', PList [feature_of (lon, lat)])], [])"
    using assms(2) by (simp add: fetch_geocode_def fetch_geocode_try_def geocode_url_def lower_def lower_char_def)
  have r: "reconcile_all tr fmt
       [((0, [(''Index'', PInt 0), (''endereco'', PStr ''RUA A, 10 - PARANA''), (''the_geom'', PNaN)],
             ''RUA A, 10  PARANA PARANA''),
         PDict [(''features'', PList [feature_of (lon, lat)])], [])]
      = (([(0, ''POINT('' @ fmt x @ '' '' @ fmt y @ '')'')], []), [])"
    using assms(1)
    by (simp add: reconcile_all_def reconcile_def reconcile_try_def feature_of_def feature_coordinates_def
          convert_lat_lon_to_UTM_def)
  have n: "numeric_dtype (column_cells ?df ''the_geom'')"
    by (simp add: numeric_dtype_def column_cells_def column_position_def)
  show ?thesis
    by (simp add: main_eq scenario_tasks dispatch_def f r n assemble_def write_all_def set_cell_def
          column_position_def Let_def)
qed

text \<open>
  Claim C2, at an input where it fails: the scenario of the specification. The frame
  has one record, without geometry and with the address \<open>RUA A, 10 - PARANA\<close>, and
  provider A answers with one feature at \<open>[-51.0, -25.5]\<close>, whose reprojection is
  \<open>(x0, y0)\<close>. The geometry column of this frame holds no text, so \<open>read_csv\<close> gives it
  the dtype float64. With pandas from 3.0 on the assignment of the text \<open>POINT(x0 y0)\<close>
  into this column raises TypeError outside every handler: the program ends and writes
  no output. With pandas before 3.0 the output is the one that the specification
  describes: the one record, with the serialized projection of latitude \<open>-25.5\<close> and
  longitude \<open>-51.0\<close> as its geometry, no new row, no new column, nothing printed.
\<close>

theorem scenario_assignment_raises:
  "tr (PFloat (-51)) (PFloat (-25.5)) = Inr (x0, y0) \<and>
   http 0 ''http://localhost:8080/external/geocode-geoapify?address=RUA A, 10  PARANA PARANA''
      = Inr (200, Inr (PDict [(''features'', PList [feature_of (PFloat (-51), PFloat (-25.5))])])) \<longrightarrow>
      convert_lat_lon_to_UTM tr fmt (PFloat (-25.5)) (PFloat (-51))
        = Inr (''POINT('' @ fmt x0 @ '' '' @ fmt y0 @ '')'') \<and>
      main True uid tr fmt http ''geoapify'' [0]
           \<lparr>columns = [''endereco'', ''the_geom''], rows = [[PStr ''RUA A, 10 - PARANA'', PNaN]]\<rparr>
         = Inl TypeError \<and>
      main False uid tr fmt http ''geoapify'' [0]
           \<lparr>columns = [''endereco'', ''the_geom''], rows = [[PStr ''RUA A, 10 - PARANA'', PNaN]]\<rparr>
         = Inr (\<lparr>columns = [''endereco'', ''the_geom''],
                  rows = [[PStr ''RUA A, 10 - PARANA'',
                           PStr (''POINT('' @ fmt x0 @ '' '' @ fmt y0 @ '')'')]]\<rparr>,
                [])"
  using scenario_one_feature[of tr "PFloat (-51)" "PFloat (-25.5)" x0 y0 http True uid fmt]
    scenario_one_feature[of tr "PFloat (-51)" "PFloat (-25.5)" x0 y0 http False uid fmt]
  by (simp add: convert_lat_lon_to_UTM_def)

theorem scenario_assignment_raises_witness:
  "convert_lat_lon_to_UTM example_transform (\<lambda>v. ''c'') (PFloat (-25.5)) (PFloat (-51)) = Inr ''POINT(c c)''
   \<and> main True (\<lambda>s. False) example_transform (\<lambda>v. ''c'')
        (\<lambda>i url. Inr (200, Inr (PDict [(''features'', PList [feature_of (PFloat (-51), PFloat (-25.5))])])))
        ''geoapify'' [0]
        \<lparr>columns = [''endereco'', ''the_geom''], rows = [[PStr ''RUA A, 10 - PARANA'', PNaN]]\<rparr>
      = Inl TypeError
   \<and> main False (\<lambda>s. False) example_transform (\<lambda>v. ''c'')
        (\<lambda>i url. Inr (200, Inr (PDict [(''features'', PList [feature_of (PFloat (-51), PFloat (-25.5))])])))
        ''geoapify'' [0]
        \<lparr>columns = [''endereco'', ''the_geom''], rows = [[PStr ''RUA A, 10 - PARANA'', PNaN]]\<rparr>
      = Inr (\<lparr>columns = [''endereco'', ''the_geom''],
               rows = [[PStr ''RUA A, 10 - PARANA'', PStr ''POINT(c c)'']]\<rparr>, [])"
proof -
  note b = scenario_assignment_raises[where tr=example_transform and fmt="\<lambda>v. ''c''"
      and ?x0.0="PFloat (-51)" and ?y0.0="PFloat (-25.5)" and uid="\<lambda>s. False"
      and http="\<lambda>i url. Inr (200, Inr (PDict [(''features'', PList [feature_of (PFloat (-51), PFloat (-25.5))])]))"]
  have h: "example_transform (PFloat (-51)) (PFloat (-25.5)) = Inr (PFloat (-51), PFloat (-25.5))"
    by (simp add: example_transform_def)
  from b h show ?thesis by simp
qed

section \<open>Records that already have a geometry\<close>

text \<open>
  A record that has a geometry is never a task and never a key of \<open>updates\<close>; the loop
  that applies the updates leaves its row as it is; in the output frame its row is the
  row of the input followed by one missing cell for each column that the frame gained.
\<close>

lemma resolved_record_kept:
  assumes t: "rows_to_process uid df = Inr tasks" and o: "set order \<subseteq> {0..<length tasks}"
    and wf: "wf_frame df" and i: "i < length (rows df)"
    and g: "\<not> lacks_geometry (itertuples uid df ! i)"
  shows "i \<notin> fst ` set tasks"
    and "i \<notin> fst ` set (fst (fst (reconcile_all tr fmt (dispatch http api_type tasks order))))"
    and "rows (write_all (fst (fst (reconcile_all tr fmt (dispatch http api_type tasks order)))) df) ! i
           = rows df ! i"
    and "rows (assemble df (fst (reconcile_all tr fmt (dispatch http api_type tasks order)))) ! i
           = rows df ! i @
             replicate (length (columns (assemble df (fst (reconcile_all tr fmt
                 (dispatch http api_type tasks order))))) - length (columns df)) PNaN"
proof -
  let ?st = "fst (reconcile_all tr fmt (dispatch http api_type tasks order))"
  show 1: "i \<notin> fst ` set tasks"
  proof
    assume "i \<in> fst ` set tasks"
    then obtain t' where t': "t' \<in> set tasks" "fst t' = i" by auto
    from task_lacks_geometry(2)[OF t t'(1)] g t'(2) show False by simp
  qed
  with run_keys[OF t o, of tr fmt http api_type] show 2: "i \<notin> fst ` set (fst ?st)" by auto
  then show 3: "rows (write_all (fst ?st) df) ! i = rows df ! i"
    by (rule write_all_untouched)
  show "rows (assemble df ?st) ! i
           = rows df ! i @ replicate (length (columns (assemble df ?st)) - length (columns df)) PNaN"
    unfolding assemble_old_row[OF wf i] 3 ..
qed

lemma resolved_record_output:
  assumes t: "rows_to_process uid df = Inr tasks" and o: "set order \<subseteq> {0..<length tasks}"
    and wf: "wf_frame df" and i: "i < length (rows df)"
    and g: "\<not> lacks_geometry (itertuples uid df ! i)"
    and out: "finish strict df (fst (reconcile_all tr fmt (dispatch http api_type tasks order))) = Inr out"
  shows "rows out ! i = rows df ! i @ replicate (length (columns out) - length (columns df)) PNaN"
proof -
  from out have "out = assemble df (fst (reconcile_all tr fmt (dispatch http api_type tasks order)))"
    by (auto simp: finish_eq split: if_splits)
  with resolved_record_kept(4)[OF t o wf i g] show ?thesis by simp
qed

text \<open>
  Claim C3, at an input where it fails. The frame has a resolved record at position 0
  and an unresolved one at position 1, whose lookup returns two features. In the output
  the resolved record has its two cells and a third, missing one, under the new column
  \<open>Index\<close>: the record is not the one of the input. By \<open>resolved_record_kept\<close> this
  added cell is the only difference that can occur.
\<close>

theorem resolved_record_gains_cell:
  "main strict uid example_transform example_fmt (\<lambda>i url. Inr (200, Inr example_body)) ''geoapify'' [0]
     example_frame
   = Inr (\<lparr>columns = [''endereco'', ''the_geom'', ''Index''],
            rows = [[PStr ''RUA B 20'', PStr ''POINT(7 8)'', PNaN],
                    [PStr ''RUA A, 10 - PARANA'', PStr ''POINT(1 2)'', PNaN],
                    [PStr ''RUA A, 10 - PARANA'', PStr ''POINT(3 4)'', PInt 1]]\<rparr>, [])"
proof -
  let ?row = "[(''Index'', PInt 1), (''endereco'', PStr ''RUA A, 10 - PARANA''), (''the_geom'', PNaN)]"
  let ?task = "(1::nat, ?row, ''RUA A, 10  PARANA PARANA'')"
  let ?st = "([(1::nat, ''POINT(1 2)'')], [AList.update ''the_geom'' (PStr ''POINT(3 4)'') ?row])"
  have d: "dispatch (\<lambda>i url. Inr (200, Inr example_body)) ''geoapify'' [?task] [0]
      = [(?task, example_body, [])]"
    by (simp add: dispatch_def example_fetch)
  have fin: "assemble example_frame ?st
     = \<lparr>columns = [''endereco'', ''the_geom'', ''Index''],
            rows = [[PStr ''RUA B 20'', PStr ''POINT(7 8)'', PNaN],
                    [PStr ''RUA A, 10 - PARANA'', PStr ''POINT(1 2)'', PNaN],
                    [PStr ''RUA A, 10 - PARANA'', PStr ''POINT(3 4)'', PInt 1]]\<rparr>"
    by (simp add: assemble_def write_all_def set_cell_def column_position_def example_frame_def
          pd_concat_def pd_DataFrame_def first_seen_def cell_of_def Let_def)
  have f: "finish strict example_frame ?st = Inr (assemble example_frame ?st)"
    using example_frame_text by (simp add: finish_eq)
  show ?thesis
    unfolding main_def example_tasks and_then_Inr d example_reconcile Let_def fst_conv snd_conv f fin ..
qed


section \<open>The normalizer on provider-B responses\<close>

lemma result_feature_wellformed:
  "wellformed_result r p \<Longrightarrow> result_feature r = Inr (Some (feature_of p))"
  by (auto simp: result_feature_def wellformed_result_def feature_of_def)

lemma normalize_results_wellformed:
  "list_all2 wellformed_result rs ps \<Longrightarrow>
     normalize_results acc rs = Inr (acc @ map feature_of ps)"
proof (induction rs ps arbitrary: acc rule: list_all2_induct)
  case Nil
  then show ?case by simp
next
  case (Cons r p rs ps)
  then show ?case by (simp add: result_feature_wellformed)
qed

text \<open>
  Claim C7. When every entry of \<open>results\<close> exposes a location with \<open>lat\<close> and \<open>lng\<close>,
  the normalizer returns one feature per entry, in the order of \<open>results\<close>, whose
  coordinates are the pair (longitude, latitude). For an empty \<open>results\<close> the sequence is
  empty and the normalizer returns None.
\<close>

theorem normalize_google_reorders:
  assumes "map_of d ''results'' = Some (PList rs)"
    and "list_all2 wellformed_result rs ps"
  shows "normalize_google_response (PDict d) =
     (if ps = [] then Inr PNone else Inr (PDict [(''features'', PList (map feature_of ps))]))"
proof -
  from assms(1) have "d \<noteq> []" by auto
  moreover have "(rs = []) = (ps = [])"
    using assms(2) by (auto simp: list_all2_Nil list_all2_Nil2)
  ultimately show ?thesis
    using assms(1) normalize_results_wellformed [OF assms(2), of "[]"]
    by (simp add: normalize_google_response_def)
qed

theorem normalize_google_reorders_witness:
  "normalize_google_response
     (PDict [(''status'', PStr ''OK''),
             (''results'', PList
                [PDict [(''geometry'', PDict [(''location'',
                   PDict [(''lat'', PFloat (-25.5)), (''lng'', PFloat (-51))])])],
                 PDict [(''geometry'', PDict [(''location'',
                   PDict [(''lat'', PInt 1), (''lng'', PInt 2)])])]])])
   = Inr (PDict [(''features'', PList
                [PDict [(''geometry'', PDict [(''coordinates'', PList [PFloat (-51), PFloat (-25.5)])])],
                 PDict [(''geometry'', PDict [(''coordinates'', PList [PInt 2, PInt 1])])]])])"
  using normalize_google_reorders [of
      "[(''status'', PStr ''OK''),
        (''results'', PList
           [PDict [(''geometry'', PDict [(''location'',
              PDict [(''lat'', PFloat (-25.5)), (''lng'', PFloat (-51))])])],
            PDict [(''geometry'', PDict [(''location'',
              PDict [(''lat'', PInt 1), (''lng'', PInt 2)])])]])]"
      "[PDict [(''geometry'', PDict [(''location'',
          PDict [(''lat'', PFloat (-25.5)), (''lng'', PFloat (-51))])])],
        PDict [(''geometry'', PDict [(''location'',
          PDict [(''lat'', PInt 1), (''lng'', PInt 2)])])]]"
      "[(PFloat (-51), PFloat (-25.5)), (PInt 2, PInt 1)]"]
  by (simp add: wellformed_result_def feature_of_def)

section \<open>Malformed responses\<close>

text \<open>
  A provider-A body whose second feature is malformed raises inside the \<open>try\<close> block of
  the completion loop, after the first pair has been written; a provider-B body whose
  location lacks \<open>lng\<close> makes the normalizer raise.
\<close>

theorem malformed_structure_raises:
  "reconcile_try example_transform example_fmt 1
      [(''Index'', PInt 1), (''endereco'', PStr ''RUA A, 10 - PARANA''), (''the_geom'', PNaN)]
      (PDict [(''features'', PList [feature_of (PInt 1, PInt 2), PDict []])]) ([], [])
     = (([(1, ''POINT(1 2)'')], []), Some AttributeError)
   \<and> normalize_google_response
       (PDict [(''results'', PList [PDict [(''geometry'', PDict [(''location'', PDict [(''lat'', PInt 1)])])]])])
     = Inl KeyError"
  by (simp add: reconcile_try_def feature_of_def feature_coordinates_def convert_lat_lon_to_UTM_def
        example_transform_def example_fmt_def normalize_google_response_def result_feature_def)

lemma result_feature_lacks_location:
  assumes "lacks_location r"
  shows "result_feature r = Inr None"
proof -
  from assms obtain rd where r: "r = PDict rd" by (cases r) simp_all
  show ?thesis
  proof (cases "map_of rd ''geometry''")
    case None
    then show ?thesis by (simp add: r result_feature_def)
  next
    case (Some g)
    with assms r obtain gd where g: "g = PDict gd" "map_of gd ''location'' = None"
      by (cases g) simp_all
    with Some show ?thesis by (simp add: r result_feature_def)
  qed
qed

lemma result_feature_lacks_coordinate:
  assumes "lacks_coordinate r"
  shows "result_feature r = Inl KeyError"
proof -
  from assms obtain rd where r: "r = PDict rd" by (cases r) simp_all
  from assms r obtain g where g: "map_of rd ''geometry'' = Some g"
    by (cases "map_of rd ''geometry''") simp_all
  from assms r g obtain gd where gd: "g = PDict gd" by (cases g) simp_all
  from assms r g gd obtain l where l: "map_of gd ''location'' = Some l"
    by (cases "map_of gd ''location''") simp_all
  from assms r g gd l obtain ld where ld: "l = PDict ld" by (cases l) simp_all
  from assms r g gd l ld have "map_of ld ''lng'' = None \<or> map_of ld ''lat'' = None" by simp
  then show ?thesis
  proof
    assume "map_of ld ''lng'' = None"
    with g l show ?thesis by (simp add: r gd ld result_feature_def)
  next
    assume n: "map_of ld ''lat'' = None"
    show ?thesis
    proof (cases "map_of ld ''lng''")
      case None
      with g l show ?thesis by (simp add: r gd ld result_feature_def)
    next
      case (Some v)
      with g l n show ?thesis by (simp add: r gd ld result_feature_def)
    qed
  qed
qed

lemma result_feature_shape:
  "result_shape r shape \<Longrightarrow>
     result_feature r = Inr (case shape of None \<Rightarrow> None | Some p \<Rightarrow> Some (feature_of p))"
  by (cases shape) (simp_all add: result_shape_def result_feature_lacks_location
        result_feature_wellformed)

lemma normalize_results_shapes:
  "list_all2 result_shape rs os \<Longrightarrow>
     normalize_results acc rs = Inr (acc @ map feature_of (List.map_filter (\<lambda>x. x) os))"
proof (induction rs os arbitrary: acc rule: list_all2_induct)
  case Nil
  then show ?case by (simp add: List.map_filter_simps)
next
  case (Cons r rs shape shapes)
  then show ?case
    by (cases shape) (simp_all add: result_feature_shape List.map_filter_simps)
qed

lemma normalize_results_lacks_coordinate:
  "list_all2 result_shape rs os \<Longrightarrow> lacks_coordinate b \<Longrightarrow>
     normalize_results acc (rs @ b # rest) = Inl KeyError"
proof (induction rs os arbitrary: acc rule: list_all2_induct)
  case Nil
  then show ?case by (simp add: result_feature_lacks_coordinate)
next
  case (Cons r rs shape shapes)
  then show ?case by (simp add: result_feature_shape)
qed

lemma feature_coordinates_lacks_geometry:
  "lacks_feature_geometry f \<Longrightarrow> feature_coordinates f = Inl AttributeError"
  by (cases f) (simp_all add: feature_coordinates_def)

lemma process_features_stops_rest:
  assumes "list_all2 wellformed_feature fs ps" "list_all2 (projects_to tr fmt) ps gs" "0 < i"
    "lacks_feature_geometry b"
  shows "process_features tr fmt row_idx row i (fs @ b # rest) (upd, new)
           = ((upd, new @ map (clone_of row) gs), Some AttributeError)"
  using assms(1,2,3)
proof (induction fs arbitrary: ps gs i new)
  case Nil
  then show ?case by (simp add: feature_coordinates_lacks_geometry[OF assms(4)])
next
  case (Cons f fs)
  from Cons.prems(1) obtain p ps' where ps: "ps = p # ps'" "wellformed_feature f p" "list_all2 wellformed_feature fs ps'"
    by (auto simp: list_all2_Cons1)
  from Cons.prems(2) ps obtain g gs' where gs: "gs = g # gs'" "projects_to tr fmt p g" "list_all2 (projects_to tr fmt) ps' gs'"
    by (auto simp: list_all2_Cons1)
  from wellformed_feature_coordinates[OF ps(2)] obtain c where c: "feature_coordinates f = Inr c"
     "py_index c 0 = Inr (fst p)" "py_index c 1 = Inr (snd p)" by blast
  have d: "duplicate_row_with_new_UTM tr fmt row c = Inr (clone_of row g)"
    by (rule duplicate_row_wellformed[OF c gs(2)])
  have "process_features tr fmt row_idx row (Suc i) (fs @ b # rest) (upd, new @ [clone_of row g])
     = ((upd, (new @ [clone_of row g]) @ map (clone_of row) gs'), Some AttributeError)"
    by (rule Cons.IH[OF ps(3) gs(3)]) simp
  with Cons.prems(3) c d show ?case by (simp add: gs(1))
qed

lemma reconcile_try_stops_first:
  assumes "map_of d ''features'' = Some (PList (b # rest))" "lacks_feature_geometry b"
  shows "reconcile_try tr fmt row_idx row (PDict d) st = (st, Some AttributeError)"
proof -
  from assms(1) have "d \<noteq> []" by auto
  with assms(1) show ?thesis
    by (simp add: reconcile_try_def feature_coordinates_lacks_geometry[OF assms(2)])
qed

lemma reconcile_try_stops_later:
  assumes "map_of d ''features'' = Some (PList (fs @ b # rest))"
    and "list_all2 wellformed_feature fs (p # ps)"
    and "list_all2 (projects_to tr fmt) (p # ps) (g # gs)"
    and "lacks_feature_geometry b"
  shows "reconcile_try tr fmt row_idx row (PDict d) (upd, new)
     = ((AList.update row_idx g upd, new @ map (clone_of row) gs), Some AttributeError)"
proof -
  from assms(2) obtain f fs' where fs: "fs = f # fs'" "wellformed_feature f p" "list_all2 wellformed_feature fs' ps"
    by (auto simp: list_all2_Cons2)
  from assms(3) have g: "projects_to tr fmt p g" "list_all2 (projects_to tr fmt) ps gs" by auto
  from wellformed_feature_coordinates[OF fs(2)] obtain c where c: "feature_coordinates f = Inr c"
     "py_index c 0 = Inr (fst p)" "py_index c 1 = Inr (snd p)" by blast
  from assms(1) have "d \<noteq> []" by auto
  moreover have "process_features tr fmt row_idx row (Suc 0) (fs' @ b # rest) (AList.update row_idx g upd, new)
      = ((AList.update row_idx g upd, new @ map (clone_of row) gs), Some AttributeError)"
    by (rule process_features_stops_rest[OF fs(3) g(2) _ assms(4)]) simp
  ultimately show ?thesis using assms(1) c g(1)
    by (simp add: reconcile_try_def fs(1) projects_to_def)
qed

text \<open>
  Claim C6, as amended. For provider B, whose body is a dict: a body without the key
  \<open>results\<close>, or with an empty \<open>results\<close>, normalizes to None. In a non-empty \<open>results\<close>
  whose entries either carry a pair or are dicts without \<open>geometry\<close> (or with a
  \<open>geometry\<close> dict without \<open>location\<close>), the latter are skipped and the others give
  their features in order; when all are skipped the feature list is empty. An entry
  whose \<open>location\<close> dict lacks \<open>lng\<close> or \<open>lat\<close>, after such entries, makes the
  normalizer raise KeyError. Whatever the normalizer raises, the client catches it,
  prints the diagnostic and returns None. For provider A, which has no normalizer: a
  body without the key \<open>features\<close>, or with an empty \<open>features\<close>, changes nothing and
  raises nothing. A feature that is a dict without \<open>geometry\<close> raises AttributeError
  inside the \<open>try\<close> block of the completion loop: when it is the first feature nothing
  is written; when well-formed features precede it, the update of the first and the
  copies for the others are kept. Whatever is raised inside the \<open>try\<close> block, the
  handler prints the diagnostic and keeps what was written before.
\<close>

theorem malformed_responses_are_contained:
  "(map_of d1 ''results'' = None \<or> map_of d1 ''results'' = Some (PList [])
      \<longrightarrow> normalize_google_response (PDict d1) = Inr PNone) \<and>
   (map_of d2 ''results'' = Some (PList (r # rs)) \<and> list_all2 result_shape (r # rs) shapes
      \<longrightarrow> normalize_google_response (PDict d2)
            = Inr (PDict [(''features'', PList (map feature_of (List.map_filter (\<lambda>x. x) shapes)))])) \<and>
   (map_of d3 ''results'' = Some (PList (rs3 @ b3 # rest3)) \<and> list_all2 result_shape rs3 shapes3 \<and>
    lacks_coordinate b3
      \<longrightarrow> normalize_google_response (PDict d3) = Inl KeyError) \<and>
   (lower api_type = ''google'' \<and> get (geocode_url endereco api_type) = Inr (200, Inr data) \<and>
    normalize_google_response data = Inl e
      \<longrightarrow> fetch_geocode get endereco api_type = (PNone, [ErrorFetching endereco e])) \<and>
   (map_of d5 ''features'' = None \<or> map_of d5 ''features'' = Some (PList [])
      \<longrightarrow> reconcile tr fmt (st, printed) ((row_idx, row, endereco), PDict d5, diag) = (st, printed @ diag)) \<and>
   (map_of d6 ''features'' = Some (PList (b6 # rest6)) \<and> lacks_feature_geometry b6
      \<longrightarrow> reconcile tr fmt (st, printed) ((row_idx, row, endereco), PDict d6, diag)
            = (st, printed @ diag @ [ErrorProcessing endereco AttributeError])) \<and>
   (map_of d7 ''features'' = Some (PList (fs @ b7 # rest7)) \<and>
    list_all2 wellformed_feature fs (p # ps) \<and> list_all2 (projects_to tr fmt) (p # ps) (g # gs) \<and>
    lacks_feature_geometry b7
      \<longrightarrow> reconcile tr fmt ((upd, new), printed) ((row_idx, row, endereco), PDict d7, diag)
            = ((AList.update row_idx g upd, new @ map (clone_of row) gs),
               printed @ diag @ [ErrorProcessing endereco AttributeError])) \<and>
   (reconcile_try tr fmt row_idx row data8 st = (st', Some e8)
      \<longrightarrow> reconcile tr fmt (st, printed) ((row_idx, row, endereco), data8, diag)
            = (st', printed @ diag @ [ErrorProcessing endereco e8]))"
proof (intro conjI impI)
  assume "map_of d1 ''results'' = None \<or> map_of d1 ''results'' = Some (PList [])"
  then show "normalize_google_response (PDict d1) = Inr PNone"
    by (auto simp: normalize_google_response_def)
next
  assume a: "map_of d2 ''results'' = Some (PList (r # rs)) \<and> list_all2 result_shape (r # rs) shapes"
  then have "d2 \<noteq> []" by auto
  moreover from a have "normalize_results [] (r # rs)
      = Inr ([] @ map feature_of (List.map_filter (\<lambda>x. x) shapes))"
    by (intro normalize_results_shapes) simp
  ultimately show "normalize_google_response (PDict d2)
            = Inr (PDict [(''features'', PList (map feature_of (List.map_filter (\<lambda>x. x) shapes)))])"
    using a by (simp add: normalize_google_response_def del: normalize_results.simps)
next
  assume a: "map_of d3 ''results'' = Some (PList (rs3 @ b3 # rest3)) \<and> list_all2 result_shape rs3 shapes3 \<and>
    lacks_coordinate b3"
  then have "d3 \<noteq> []" by auto
  moreover from a have "normalize_results [] (rs3 @ b3 # rest3) = Inl KeyError"
    by (intro normalize_results_lacks_coordinate[where os=shapes3]) simp_all
  ultimately show "normalize_google_response (PDict d3) = Inl KeyError"
    using a by (simp add: normalize_google_response_def)
next
  assume "lower api_type = ''google'' \<and> get (geocode_url endereco api_type) = Inr (200, Inr data) \<and>
    normalize_google_response data = Inl e"
  then show "fetch_geocode get endereco api_type = (PNone, [ErrorFetching endereco e])"
    by (simp add: fetch_geocode_def fetch_geocode_try_def)
next
  assume "map_of d5 ''features'' = None \<or> map_of d5 ''features'' = Some (PList [])"
  then have "no_features (PDict d5)" by (auto simp: no_features_def)
  then show "reconcile tr fmt (st, printed) ((row_idx, row, endereco), PDict d5, diag) = (st, printed @ diag)"
    by (rule reconcile_no_features)
next
  assume "map_of d6 ''features'' = Some (PList (b6 # rest6)) \<and> lacks_feature_geometry b6"
  then have "reconcile_try tr fmt row_idx row (PDict d6) st = (st, Some AttributeError)"
    by (simp add: reconcile_try_stops_first)
  then show "reconcile tr fmt (st, printed) ((row_idx, row, endereco), PDict d6, diag)
            = (st, printed @ diag @ [ErrorProcessing endereco AttributeError])"
    by (simp add: reconcile_def Let_def)
next
  assume "map_of d7 ''features'' = Some (PList (fs @ b7 # rest7)) \<and>
    list_all2 wellformed_feature fs (p # ps) \<and> list_all2 (projects_to tr fmt) (p # ps) (g # gs) \<and>
    lacks_feature_geometry b7"
  then have a: "map_of d7 ''features'' = Some (PList (fs @ b7 # rest7))"
    "list_all2 wellformed_feature fs (p # ps)" "list_all2 (projects_to tr fmt) (p # ps) (g # gs)"
    "lacks_feature_geometry b7" by blast+
  have "reconcile_try tr fmt row_idx row (PDict d7) (upd, new)
     = ((AList.update row_idx g upd, new @ map (clone_of row) gs), Some AttributeError)"
    by (rule reconcile_try_stops_later[OF a])
  then show "reconcile tr fmt ((upd, new), printed) ((row_idx, row, endereco), PDict d7, diag)
            = ((AList.update row_idx g upd, new @ map (clone_of row) gs),
               printed @ diag @ [ErrorProcessing endereco AttributeError])"
    by (simp add: reconcile_def Let_def)
next
  assume "reconcile_try tr fmt row_idx row data8 st = (st', Some e8)"
  then show "reconcile tr fmt (st, printed) ((row_idx, row, endereco), data8, diag)
            = (st', printed @ diag @ [ErrorProcessing endereco e8])"
    by (simp add: reconcile_def Let_def)
qed


theorem malformed_responses_are_contained_witness:
  "normalize_google_response (PDict [(''status'', PStr ''ZERO_RESULTS'')]) = Inr PNone
   \<and> normalize_google_response
        (PDict [(''results'',
           PList [PDict [(''geometry'', PDict [(''location'', PDict [(''lat'', PInt 2), (''lng'', PInt 1)])])],
                  PDict [(''formatted_address'', PStr ''RUA A'')],
                  PDict [(''geometry'', PDict [(''location'', PDict [(''lat'', PInt 4), (''lng'', PInt 3)])])]])])
      = Inr (PDict [(''features'', PList [feature_of (PInt 1, PInt 2), feature_of (PInt 3, PInt 4)])])
   \<and> normalize_google_response
        (PDict [(''results'',
           PList [PDict [(''geometry'', PDict [(''location'', PDict [(''lat'', PInt 2), (''lng'', PInt 1)])])],
                  PDict [(''geometry'', PDict [(''location'', PDict [(''lat'', PInt 1)])])]])])
      = Inl KeyError
   \<and> fetch_geocode
        (\<lambda>url. Inr (200, Inr (PDict [(''results'',
            PList [PDict [(''geometry'', PDict [(''location'', PDict [(''lat'', PInt 1)])])]])])))
        ''RUA A'' ''google''
      = (PNone, [ErrorFetching ''RUA A'' KeyError])
   \<and> reconcile example_transform example_fmt (([], []), [])
        ((1, [(''Index'', PInt 1), (''the_geom'', PNaN)], ''RUA A''),
         PDict [(''status'', PStr ''ZERO_RESULTS'')], [])
      = (([], []), [])
   \<and> reconcile example_transform example_fmt (([], []), [])
        ((1, [(''Index'', PInt 1), (''the_geom'', PNaN)], ''RUA A''),
         PDict [(''features'', PList [PDict []])], [])
      = (([], []), [ErrorProcessing ''RUA A'' AttributeError])
   \<and> reconcile example_transform example_fmt (([], []), [])
        ((1, [(''Index'', PInt 1), (''the_geom'', PNaN)], ''RUA A''),
         PDict [(''features'', PList [feature_of (PInt 1, PInt 2), feature_of (PInt 3, PInt 4), PDict [],
                   feature_of (PInt 5, PInt 6)])], [])
      = (([(1, ''POINT(1 2)'')], [[(''Index'', PInt 1), (''the_geom'', PStr ''POINT(3 4)'')]]),
         [ErrorProcessing ''RUA A'' AttributeError])
   \<and> reconcile example_transform example_fmt (([], []), [])
        ((1, [(''Index'', PInt 1), (''the_geom'', PNaN)], ''RUA A''),
         PDict [(''features'', PList [PDict [(''geometry'', PDict [])]])], [])
      = (([], []), [ErrorProcessing ''RUA A'' TypeError])"
proof -
  let ?ok12 = "PDict [(''geometry'', PDict [(''location'', PDict [(''lat'', PInt 2), (''lng'', PInt 1)])])]"
  let ?ok34 = "PDict [(''geometry'', PDict [(''location'', PDict [(''lat'', PInt 4), (''lng'', PInt 3)])])]"
  let ?skip = "PDict [(''formatted_address'', PStr ''RUA A'')]"
  let ?nolng = "PDict [(''geometry'', PDict [(''location'', PDict [(''lat'', PInt 1)])])]"
  let ?bad = "PDict [(''results'', PList [?nolng])]"
  let ?get = "\<lambda>url::string. (Inr (200, Inr ?bad) :: exn + response)"
  let ?row = "[(''Index'', PInt 1), (''the_geom'', PNaN)]"
  let ?d8 = "PDict [(''features'', PList [PDict [(''geometry'', PDict [])]])]"
  note c6 = malformed_responses_are_contained[where ?d1.0="[(''status'', PStr ''ZERO_RESULTS'')]"
      and ?d2.0="[(''results'', PList [?ok12, ?skip, ?ok34])]" and r="?ok12" and rs="[?skip, ?ok34]"
      and shapes="[Some (PInt 1, PInt 2), None, Some (PInt 3, PInt 4)]"
      and ?d3.0="[(''results'', PList [?ok12, ?nolng])]" and ?rs3.0="[?ok12]" and ?b3.0="?nolng"
      and ?rest3.0="[]" and ?shapes3.0="[Some (PInt 1, PInt 2)]"
      and api_type="''google''" and get="?get" and endereco="''RUA A''" and data="?bad" and e=KeyError
      and ?d5.0="[(''status'', PStr ''ZERO_RESULTS'')]" and tr=example_transform and fmt=example_fmt
      and st="([], [])" and printed="[]" and row_idx=1 and row="?row" and diag="[]"
      and ?d6.0="[(''features'', PList [PDict []])]" and ?b6.0="PDict []" and ?rest6.0="[]"
      and ?d7.0="[(''features'', PList [feature_of (PInt 1, PInt 2), feature_of (PInt 3, PInt 4), PDict [],
                   feature_of (PInt 5, PInt 6)])]"
      and fs="[feature_of (PInt 1, PInt 2), feature_of (PInt 3, PInt 4)]" and ?b7.0="PDict []"
      and ?rest7.0="[feature_of (PInt 5, PInt 6)]" and p="(PInt 1, PInt 2)" and ps="[(PInt 3, PInt 4)]"
      and g="''POINT(1 2)''" and gs="[''POINT(3 4)'']" and upd="[]" and new="[]"
      and ?data8.0="?d8" and st'="([], [])" and ?e8.0=TypeError]
  have h1: "map_of [(''status'', PStr ''ZERO_RESULTS'')] ''results'' = None \<or>
      map_of [(''status'', PStr ''ZERO_RESULTS'')] ''results'' = Some (PList [])" by simp
  have h2: "map_of [(''results'', PList [?ok12, ?skip, ?ok34])] ''results'' = Some (PList (?ok12 # [?skip, ?ok34])) \<and>
      list_all2 result_shape (?ok12 # [?skip, ?ok34]) [Some (PInt 1, PInt 2), None, Some (PInt 3, PInt 4)]"
    by (simp add: result_shape_def wellformed_result_def)
  have h3: "map_of [(''results'', PList [?ok12, ?nolng])] ''results'' = Some (PList ([?ok12] @ ?nolng # [])) \<and>
      list_all2 result_shape [?ok12] [Some (PInt 1, PInt 2)] \<and> lacks_coordinate ?nolng"
    by (simp add: result_shape_def wellformed_result_def)
  have h4: "lower ''google'' = ''google'' \<and> ?get (geocode_url ''RUA A'' ''google'') = Inr (200, Inr ?bad) \<and>
      normalize_google_response ?bad = Inl KeyError"
    by (simp add: lower_def lower_char_def normalize_google_response_def result_feature_def)
  have h5: "map_of [(''status'', PStr ''ZERO_RESULTS'')] ''features'' = None \<or>
      map_of [(''status'', PStr ''ZERO_RESULTS'')] ''features'' = Some (PList [])" by simp
  have h6: "map_of [(''features'', PList [PDict []])] ''features'' = Some (PList (PDict [] # [])) \<and>
      lacks_feature_geometry (PDict [])" by simp
  have h7: "map_of [(''features'', PList [feature_of (PInt 1, PInt 2), feature_of (PInt 3, PInt 4), PDict [],
                   feature_of (PInt 5, PInt 6)])] ''features''
        = Some (PList ([feature_of (PInt 1, PInt 2), feature_of (PInt 3, PInt 4)] @ PDict [] #
                   [feature_of (PInt 5, PInt 6)])) \<and>
      list_all2 wellformed_feature [feature_of (PInt 1, PInt 2), feature_of (PInt 3, PInt 4)]
        ((PInt 1, PInt 2) # [(PInt 3, PInt 4)]) \<and>
      list_all2 (projects_to example_transform example_fmt) ((PInt 1, PInt 2) # [(PInt 3, PInt 4)])
        (''POINT(1 2)'' # [''POINT(3 4)'']) \<and>
      lacks_feature_geometry (PDict [])"
    by (simp add: example_wellformed example_projects)
  have h8: "reconcile_try example_transform example_fmt 1 ?row ?d8 ([], []) = (([], []), Some TypeError)"
    by (simp add: reconcile_try_def feature_coordinates_def)
  from c6[THEN conjunct1, THEN mp, OF h1]
    c6[THEN conjunct2, THEN conjunct1, THEN mp, OF h2]
    c6[THEN conjunct2, THEN conjunct2, THEN conjunct1, THEN mp, OF h3]
    c6[THEN conjunct2, THEN conjunct2, THEN conjunct2, THEN conjunct1, THEN mp, OF h4]
    c6[THEN conjunct2, THEN conjunct2, THEN conjunct2, THEN conjunct2, THEN conjunct1, THEN mp, OF h5]
    c6[THEN conjunct2, THEN conjunct2, THEN conjunct2, THEN conjunct2, THEN conjunct2, THEN conjunct1,
       THEN mp, OF h6]
    c6[THEN conjunct2, THEN conjunct2, THEN conjunct2, THEN conjunct2, THEN conjunct2, THEN conjunct2,
       THEN conjunct1, THEN mp, OF h7]
    c6[THEN conjunct2, THEN conjunct2, THEN conjunct2, THEN conjunct2, THEN conjunct2, THEN conjunct2,
       THEN conjunct2, THEN mp, OF h8]
  show ?thesis by (simp add: List.map_filter_simps clone_of_def)
qed


section \<open>The client\<close>

text \<open>
  Claim C5. A response whose status is not 200 (so every status outside the success
  range) gives the empty result None. When \<open>requests.get\<close> raises, when decoding the
  body raises, and in general whenever the \<open>try\<close> block raises, the client prints the
  diagnostic with the address it was asked for and returns None. \<open>fetch_geocode\<close> always
  returns: its result is a value and a list of printed lines, never an exception.
\<close>

theorem fetch_geocode_failures:
  "(get (geocode_url endereco api_type) = Inr (status, body) \<and> status \<noteq> 200
      \<longrightarrow> fetch_geocode get endereco api_type = (PNone, []))
   \<and> (get (geocode_url endereco api_type) = Inl e
      \<longrightarrow> fetch_geocode get endereco api_type = (PNone, [ErrorFetching endereco e]))
   \<and> (get (geocode_url endereco api_type) = Inr (200, Inl e)
      \<longrightarrow> fetch_geocode get endereco api_type = (PNone, [ErrorFetching endereco e]))
   \<and> (fetch_geocode_try get endereco api_type = Inl e
      \<longrightarrow> fetch_geocode get endereco api_type = (PNone, [ErrorFetching endereco e]))"
  by (simp add: fetch_geocode_def fetch_geocode_try_def)

theorem fetch_geocode_failures_witness:
  "fetch_geocode (\<lambda>url. Inr (404, Inr (PDict []))) ''RUA A 10 PARANA'' ''geoapify'' = (PNone, [])
   \<and> fetch_geocode (\<lambda>url. Inl (LibraryError ''ConnectTimeout'')) ''RUA A 10 PARANA'' ''geoapify''
       = (PNone, [ErrorFetching ''RUA A 10 PARANA'' (LibraryError ''ConnectTimeout'')])
   \<and> fetch_geocode (\<lambda>url. Inr (200, Inl (LibraryError ''JSONDecodeError''))) ''RUA A 10 PARANA'' ''google''
       = (PNone, [ErrorFetching ''RUA A 10 PARANA'' (LibraryError ''JSONDecodeError'')])"
  using
    fetch_geocode_failures [of "\<lambda>url. Inr (404, Inr (PDict []))" "''RUA A 10 PARANA''"
      "''geoapify''" 404 "Inr (PDict [])"]
    fetch_geocode_failures [of "\<lambda>url. Inl (LibraryError ''ConnectTimeout'')" "''RUA A 10 PARANA''"
      "''geoapify''" _ _ "LibraryError ''ConnectTimeout''"]
    fetch_geocode_failures [of "\<lambda>url. Inr (200, Inl (LibraryError ''JSONDecodeError''))"
      "''RUA A 10 PARANA''" "''google''" _ _ "LibraryError ''JSONDecodeError''"]
  by simp



end
